theory Spec2Isabelle
  imports Main "HOL-Library.AList" "HOL-Library.Sublist"
begin

section \<open>Values, dictionaries and HTTP responses\<close>

text \<open>
  The client of \<^verbatim>\<open>magento/client.py\<close> moves JSON documents around. A JSON value, as
  \<^verbatim>\<open>response.json()\<close> hands it to Python, is modelled by \<open>json\<close>: \<open>JNull\<close> is Python's
  \<^verbatim>\<open>None\<close>, \<open>JObj\<close> a \<^verbatim>\<open>dict\<close> in insertion order (its keys are distinct, as in any
  Python dict), \<open>JArr\<close> a \<^verbatim>\<open>list\<close>. Numbers are the integers; floating point numbers are
  not modelled.
\<close>

datatype json =
    JNull
  | JBool bool
  | JNum int
  | JStr string
  | JArr "json list"
  | JObj "(string \<times> json) list"

text \<open>A \<^verbatim>\<open>Query\<close> is a Python dict from strings to values: an association list in insertion
  order. \<open>AList.update\<close> is Python's \<^verbatim>\<open>d[k] = v\<close>: an existing key keeps its place, a new key
  goes to the end.\<close>

type_synonym pydict = "(string \<times> json) list"

text \<open>\<^verbatim>\<open>d.get(k)\<close>: the value, or \<^verbatim>\<open>None\<close>.\<close>

definition dict_get :: "pydict \<Rightarrow> string \<Rightarrow> json" where
  "dict_get d k = (case map_of d k of None \<Rightarrow> JNull | Some v \<Rightarrow> v)"

text \<open>Python's truth value of a JSON value (\<^verbatim>\<open>not items\<close>).\<close>

fun truthy :: "json \<Rightarrow> bool" where
  "truthy JNull = False"
| "truthy (JBool b) = b"
| "truthy (JNum n) = (n \<noteq> 0)"
| "truthy (JStr s) = (s \<noteq> [])"
| "truthy (JArr xs) = (xs \<noteq> [])"
| "truthy (JObj kvs) = (kvs \<noteq> [])"

text \<open>
  A \<^verbatim>\<open>requests.Response\<close>, as far as the client looks at it: the status code, the body as
  text, and what \<^verbatim>\<open>response.json()\<close> returns (\<open>None\<close> when it raises \<^verbatim>\<open>ValueError\<close>, that
  is when the body is not JSON).
\<close>

record response =
  status_code :: int
  text' :: string
  json_body :: "json option"

datatype error =
    RuntimeError string
  | AssertionError
  | HTTPError response
  | MagentoException json json json response
  | MagentoAssertionError
  | JSONDecodeError
  | AttributeError
  | KeyError string
  | IndexError
  | TypeError

text \<open>
  \<^verbatim>\<open>Response.raise_for_status\<close> and \<^verbatim>\<open>Response.ok\<close> belong to the \<^verbatim>\<open>requests\<close> library:
  \<^verbatim>\<open>raise_for_status\<close> raises \<^verbatim>\<open>HTTPError\<close> exactly for a status code from 400 to 599, and
  \<^verbatim>\<open>ok\<close> is true exactly when \<^verbatim>\<open>raise_for_status\<close> does not raise.
\<close>

definition raise_for_status :: "response \<Rightarrow> error + unit" where
  "raise_for_status r =
     (if 400 \<le> status_code r \<and> status_code r < 600 then Inl (HTTPError r) else Inr ())"

definition ok :: "response \<Rightarrow> bool" where
  "ok r = (case raise_for_status r of Inl _ \<Rightarrow> False | Inr _ \<Rightarrow> True)"

text \<open>A 2xx status.\<close>

definition is_2xx :: "response \<Rightarrow> bool" where
  "is_2xx r = (200 \<le> status_code r \<and> status_code r < 300)"

section \<open>\<^verbatim>\<open>raise_for_response\<close>\<close>

text \<open>
  \<^verbatim>\<open>
  def raise_for_response(response):
      if response.ok:
          return
      if response.text and response.text[0] == "{":
          try:
              body = response.json()
          except (ValueError, JSONDecodeError):
              pass
          else:
              if isinstance(body, dict) and "message" in body:
                  raise MagentoException(body["message"], parameters=body.get("parameters"),
                                         trace=body.get("trace"), response=response)
      response.raise_for_status()
  \<close>
  \<open>magento_error\<close> is the part between the two \<^verbatim>\<open>if\<close>s: the exception that the
  \<^verbatim>\<open>raise\<close> statement raises, if it is reached.

  The class \<^verbatim>\<open>MagentoException\<close> is defined in \<^verbatim>\<open>magento/exceptions.py\<close>. Its constructor
  runs code of its own on the message and the parameters (it fills the \<^verbatim>\<open>%N\<close> placeholders of
  the message from the parameters) and can raise, for instance \<^verbatim>\<open>IndexError\<close> when a
  placeholder has no parameter. The constructor is a parameter of the model: \<open>exc_init m p t r\<close>
  is the exception that \<^verbatim>\<open>MagentoException(m, parameters=p, trace=t, response=r)\<close> raises, or
  \<open>None\<close> when the constructor returns. The value \<open>MagentoException m p t r\<close> is the exception
  object built by a constructor call that returned.
\<close>

type_synonym exception_init = "json \<Rightarrow> json \<Rightarrow> json \<Rightarrow> response \<Rightarrow> error option"

definition magento_error :: "exception_init \<Rightarrow> response \<Rightarrow> error option" where
  "magento_error exc_init response =
     (case text' response of
        [] \<Rightarrow> None
      | c # _ \<Rightarrow>
          if c = CHR ''{'' then
            (case json_body response of
               None \<Rightarrow> None
             | Some body \<Rightarrow>
                 (case body of
                    JObj kvs \<Rightarrow>
                      (case map_of kvs ''message'' of
                         None \<Rightarrow> None
                       | Some m \<Rightarrow>
                           (case exc_init m (dict_get kvs ''parameters'')
                                   (dict_get kvs ''trace'') response of
                              Some e \<Rightarrow> Some e
                            | None \<Rightarrow>
                                Some (MagentoException m (dict_get kvs ''parameters'')
                                        (dict_get kvs ''trace'') response)))
                  | _ \<Rightarrow> None))
          else None)"

definition raise_for_response :: "exception_init \<Rightarrow> response \<Rightarrow> error + unit" where
  "raise_for_response exc_init response =
     (if ok response then Inr ()
      else case magento_error exc_init response of
             Some e \<Rightarrow> Inl e
           | None \<Rightarrow> raise_for_status response)"

section \<open>The client object and its constructor\<close>

record magento =
  base_url :: string
  user_agent :: string
  read_only :: bool
  PAGE_SIZE :: int
  scope :: string
  logger :: bool
  authorization :: string

definition DEFAULT_SCOPE :: string where
  "DEFAULT_SCOPE = ''all''"

text \<open>\<^verbatim>\<open>USER_AGENT\<close> embeds the package version, a constant of \<^verbatim>\<open>magento/version.py\<close>; it is a
  parameter here.\<close>

definition USER_AGENT :: "string \<Rightarrow> string" where
  "USER_AGENT version = ''Bixoto/PyMagento '' @ version @ '' +git.io/JDp0h''"

text \<open>Python's \<^verbatim>\<open>a or b\<close> on optional strings: \<^verbatim>\<open>None\<close> and the empty string are false.\<close>

definition py_or :: "string option \<Rightarrow> string option \<Rightarrow> string option" where
  "py_or a b = (case a of None \<Rightarrow> b | Some s \<Rightarrow> if s = [] then b else Some s)"

text \<open>\<^verbatim>\<open>a or d\<close> with a default that is a non-empty string constant.\<close>

definition py_or_default :: "string option \<Rightarrow> string \<Rightarrow> string" where
  "py_or_default a d = (case a of None \<Rightarrow> d | Some s \<Rightarrow> if s = [] then d else s)"

text \<open>Python's \<^verbatim>\<open>s.rstrip(c)\<close> for one character: the string without its trailing \<open>c\<close>s.\<close>

definition rstrip :: "char \<Rightarrow> string \<Rightarrow> string" where
  "rstrip c s = rev (dropWhile (\<lambda>x. x = c) (rev s))"

text \<open>
  \<^verbatim>\<open>Magento.__init__\<close>. \<open>environ\<close> is \<^verbatim>\<open>os.environ\<close>; \<^verbatim>\<open>environ.get(k)\<close> is \<open>map_of environ k\<close>.
  The constructor of the base class \<^verbatim>\<open>APISession\<close> (a library) stores the base URL without
  its trailing slashes (\<^verbatim>\<open>base_url.rstrip("/")\<close>), the user agent and the read-only flag.
\<close>

definition Magento_init ::
  "string \<Rightarrow> (string \<times> string) list \<Rightarrow> string option \<Rightarrow> string option \<Rightarrow> string option \<Rightarrow>
   bool \<Rightarrow> bool \<Rightarrow> string option \<Rightarrow> int option \<Rightarrow> error + magento" where
  "Magento_init version environ token base_url' scope' logger' read_only' user_agent' batch_page_size =
     (let token = py_or token (map_of environ ''PYMAGENTO_TOKEN'');
          base_url' = py_or base_url' (map_of environ ''PYMAGENTO_BASE_URL'');
          scope' = py_or_default (py_or scope' (map_of environ ''PYMAGENTO_SCOPE'')) DEFAULT_SCOPE;
          user_agent' = py_or_default (py_or user_agent' (map_of environ ''PYMAGENTO_USER_AGENT''))
                          (USER_AGENT version)
      in case token of
           None \<Rightarrow> Inl (RuntimeError ''Missing API token'')
         | Some tok \<Rightarrow>
             (case base_url' of
                None \<Rightarrow> Inl (RuntimeError ''Missing API base URL'')
              | Some url \<Rightarrow>
                  Inr \<lparr> base_url = rstrip CHR ''/'' url, user_agent = user_agent',
                        read_only = read_only',
                        PAGE_SIZE = (case batch_page_size of None \<Rightarrow> 1000 | Some n \<Rightarrow> n),
                        scope = scope', logger = logger',
                        authorization = ''Bearer '' @ tok \<rparr>))"

section \<open>The world: dict objects and observable events\<close>

text \<open>
  A request as \<^verbatim>\<open>Magento.request_api\<close> hands it to the base class: the method, the path below
  the base URL, and the query parameters (the contents of the \<^verbatim>\<open>params\<close> dict at the time of
  the call).
\<close>

record request =
  http_method :: string
  full_path :: string
  params :: pydict

datatype event = Req request | Sleep nat | Yield json

text \<open>
  Python dicts are mutable objects, and \<^verbatim>\<open>get_paginated\<close> copies and updates them. The heap
  holds the dict objects, an address is an index into it, and a new object goes to the end.
  The trace lists what the client did, in order: HTTP calls, sleeps, and the items a
  generator yielded to its consumer.
\<close>

record world =
  heap :: "pydict list"
  trace :: "event list"

definition emit :: "event \<Rightarrow> world \<Rightarrow> world" where
  "emit e w = w\<lparr>trace := trace w @ [e]\<rparr>"

fun requests :: "event list \<Rightarrow> request list" where
  "requests [] = []"
| "requests (Req r # es) = r # requests es"
| "requests (_ # es) = requests es"

fun yielded :: "event list \<Rightarrow> json list" where
  "yielded [] = []"
| "yielded (Yield x # es) = x # yielded es"
| "yielded (_ # es) = yielded es"

fun sleeps :: "event list \<Rightarrow> nat list" where
  "sleeps [] = []"
| "sleeps (Sleep n # es) = n # sleeps es"
| "sleeps (_ # es) = sleeps es"

text \<open>The events a run added to the trace.\<close>

definition new_events :: "world \<Rightarrow> world \<Rightarrow> event list" where
  "new_events w w' = drop (length (trace w)) (trace w')"

text \<open>\<^verbatim>\<open>d.copy()\<close>, \<^verbatim>\<open>{}\<close> and \<^verbatim>\<open>d[k] = v\<close> on the heap.\<close>

definition dict_copy :: "nat \<Rightarrow> world \<Rightarrow> nat \<times> world" where
  "dict_copy a w = (length (heap w), w\<lparr>heap := heap w @ [heap w ! a]\<rparr>)"

definition dict_new :: "world \<Rightarrow> nat \<times> world" where
  "dict_new w = (length (heap w), w\<lparr>heap := heap w @ [[]]\<rparr>)"

definition dict_set :: "nat \<Rightarrow> string \<Rightarrow> json \<Rightarrow> world \<Rightarrow> world" where
  "dict_set a k v w = w\<lparr>heap := (heap w)[a := AList.update k v (heap w ! a)]\<rparr>"

text \<open>
  The server answers the n-th HTTP call of the run (counted from 0) with a response that may
  depend on n and on the request: a server can fail twice and then succeed.
\<close>

type_synonym server = "nat \<Rightarrow> request \<Rightarrow> response"

definition calls :: "world \<Rightarrow> nat" where
  "calls w = length (requests (trace w))"

text \<open>
  One HTTP call: \<^verbatim>\<open>super().request_api(method, full_path, *args, throw=False, **kwargs)\<close>, a
  method of the base class \<^verbatim>\<open>APISession\<close> (a library). On a read-only client it lets only the
  methods GET, HEAD and OPTIONS through, in either case of the letters, and fails an assertion
  for any other method before it calls the server.
\<close>

definition upper :: "char \<Rightarrow> char" where
  "upper c =
     (case map_of (zip ''abcdefghijklmnopqrstuvwxyz'' ''ABCDEFGHIJKLMNOPQRSTUVWXYZ'') c of
        None \<Rightarrow> c
      | Some u \<Rightarrow> u)"

definition is_read_method :: "string \<Rightarrow> bool" where
  "is_read_method m = (map upper m \<in> set [''GET'', ''HEAD'', ''OPTIONS''])"

definition http_call ::
  "server \<Rightarrow> magento \<Rightarrow> request \<Rightarrow> world \<Rightarrow> (error + response) \<times> world" where
  "http_call srv self req w =
     (if read_only self \<and> \<not> is_read_method (http_method req) then (Inl AssertionError, w)
      else (Inr (srv (calls w) req), emit (Req req) w))"

section \<open>\<^verbatim>\<open>request_api\<close>\<close>

text \<open>
  \<^verbatim>\<open>
  while not r.ok and retry > 0:
      retry -= 1
      time.sleep(10)
      r = super().request_api(method, full_path, *args, throw=False, **kwargs)
  \<close>
\<close>

function retry_loop ::
  "server \<Rightarrow> magento \<Rightarrow> request \<Rightarrow> response \<Rightarrow> int \<Rightarrow> world \<Rightarrow> (error + response) \<times> world" where
  "retry_loop srv self req r retry w =
     (if \<not> ok r \<and> retry > 0 then
        (case http_call srv self req (emit (Sleep 10) w) of
           (Inl e, w') \<Rightarrow> (Inl e, w')
         | (Inr r', w') \<Rightarrow> retry_loop srv self req r' (retry - 1) w')
      else (Inr r, w))"
  by pat_completeness auto
termination
  by (relation "measure (\<lambda>(srv, self, req, r, retry, w). nat retry)") auto

declare retry_loop.simps [simp del]

text \<open>
  \<^verbatim>\<open>
  def request_api(self, method, path, *args, async_bulk=False, throw=False, retry=0, **kwargs):
      assert path.startswith("/V1/")
      full_path = f"/rest/{self.scope}"
      if async_bulk:
          full_path += "/async/bulk"
      full_path += path
      r = super().request_api(method, full_path, *args, throw=False, **kwargs)
      while ...
      if throw:
          raise_for_response(r)
      return r
  \<close>
  The debug message to the logger has no effect on the control flow and is left out.
\<close>

definition make_full_path :: "magento \<Rightarrow> bool \<Rightarrow> string \<Rightarrow> string" where
  "make_full_path self async_bulk path =
     ''/rest/'' @ scope self @ (if async_bulk then ''/async/bulk'' else '''') @ path"

definition request_api ::
  "exception_init \<Rightarrow> server \<Rightarrow> magento \<Rightarrow> string \<Rightarrow> string \<Rightarrow> pydict \<Rightarrow> bool \<Rightarrow> bool \<Rightarrow> int \<Rightarrow> world \<Rightarrow>
   (error + response) \<times> world" where
  "request_api exc_init srv self method' path params' async_bulk throw retry w =
     (if \<not> prefix ''/V1/'' path then (Inl AssertionError, w)
      else
        let req = \<lparr> http_method = method', full_path = make_full_path self async_bulk path,
                    params = params' \<rparr>
        in case http_call srv self req w of
             (Inl e, w0) \<Rightarrow> (Inl e, w0)
           | (Inr r0, w0) \<Rightarrow>
               (case retry_loop srv self req r0 retry w0 of
                  (Inl e, w') \<Rightarrow> (Inl e, w')
                | (Inr r, w') \<Rightarrow>
                    if throw then
                      (case raise_for_response exc_init r of
                         Inl e \<Rightarrow> (Inl e, w')
                       | Inr _ \<Rightarrow> (Inr r, w'))
                    else (Inr r, w')))"

text \<open>
  \<^verbatim>\<open>get_api(path, params, throw=..., retry=...)\<close> is a method of the base class \<^verbatim>\<open>APISession\<close>: it
  calls \<^verbatim>\<open>self.request_api("get", path, params=params, ...)\<close>. The \<^verbatim>\<open>params\<close> dict is read
  when the call is made.
\<close>

definition get_api ::
  "exception_init \<Rightarrow> server \<Rightarrow> magento \<Rightarrow> string \<Rightarrow> nat \<Rightarrow> bool \<Rightarrow> int \<Rightarrow> world \<Rightarrow> (error + response) \<times> world" where
  "get_api exc_init srv self path params_ref throw retry w =
     request_api exc_init srv self ''get'' path (heap w ! params_ref) False throw retry w"

section \<open>\<^verbatim>\<open>get_paginated\<close>\<close>

definition PAGE_SIZE_KEY :: string where
  "PAGE_SIZE_KEY = ''searchCriteria[pageSize]''"

definition CURRENT_PAGE_KEY :: string where
  "CURRENT_PAGE_KEY = ''searchCriteria[currentPage]''"

text \<open>\<^verbatim>\<open>response.json()\<close>.\<close>

definition response_json :: "response \<Rightarrow> error + json" where
  "response_json r = (case json_body r of None \<Rightarrow> Inl JSONDecodeError | Some v \<Rightarrow> Inr v)"

text \<open>\<^verbatim>\<open>for item in items\<close>: the elements of a list, the characters of a string, the keys of a
  dict; anything else is not iterable.\<close>

fun py_iter :: "json \<Rightarrow> error + json list" where
  "py_iter (JArr xs) = Inr xs"
| "py_iter (JStr s) = Inr (map (\<lambda>c. JStr [c]) s)"
| "py_iter (JObj kvs) = Inr (map (\<lambda>kv. JStr (fst kv)) kvs)"
| "py_iter _ = Inl TypeError"

text \<open>\<^verbatim>\<open>count >= total_count\<close> for an integer \<^verbatim>\<open>count\<close>: Python compares an integer with an
  integer or a boolean, and raises \<^verbatim>\<open>TypeError\<close> on anything else.\<close>

fun py_ge :: "int \<Rightarrow> json \<Rightarrow> error + bool" where
  "py_ge c (JNum n) = Inr (c \<ge> n)"
| "py_ge c (JBool b) = Inr (c \<ge> (if b then 1 else 0))"
| "py_ge c _ = Inl TypeError"

datatype flow = Continue | Return | Raise error

text \<open>
  \<^verbatim>\<open>
  for item in items:
      yield item
      count += 1
      if count >= total_count:
          return
      if is_limited and count >= limit:
          return
  \<close>
  The result says how the loop was left, with the counter. The debug message every 1000
  items is left out.
\<close>

fun yield_items ::
  "json list \<Rightarrow> json \<Rightarrow> bool \<Rightarrow> int \<Rightarrow> int \<Rightarrow> world \<Rightarrow> flow \<times> int \<times> world" where
  "yield_items [] total_count is_limited limit count w = (Continue, count, w)"
| "yield_items (item # items) total_count is_limited limit count w =
     (let w1 = emit (Yield item) w;
          count1 = count + 1
      in case py_ge count1 total_count of
           Inl e \<Rightarrow> (Raise e, count1, w1)
         | Inr True \<Rightarrow> (Return, count1, w1)
         | Inr False \<Rightarrow>
             if is_limited \<and> count1 \<ge> limit then (Return, count1, w1)
             else yield_items items total_count is_limited limit count1 w1)"

text \<open>
  The \<^verbatim>\<open>while True\<close> loop. It runs for ever against a server that keeps sending items and a
  large \<^verbatim>\<open>total_count\<close>, so the model takes fuel: one unit per page. The result is \<open>None\<close>
  when the fuel runs out before the generator is exhausted, \<open>Some (Inr ())\<close> when the generator
  is exhausted, \<open>Some (Inl e)\<close> when it raises \<open>e\<close>.
  \<^verbatim>\<open>
  while True:
      page_query = query.copy()
      page_query["searchCriteria[currentPage]"] = current_page
      res = self.get_api(path, page_query, throw=True, retry=retry).json()
      items = res.get("items", [])
      if not items:
          break
      total_count = res["total_count"]
      for item in items: ...
      current_page += 1
  \<close>
\<close>

fun page_loop ::
  "exception_init \<Rightarrow> nat \<Rightarrow> server \<Rightarrow> magento \<Rightarrow> string \<Rightarrow> nat \<Rightarrow> int \<Rightarrow> bool \<Rightarrow> int \<Rightarrow> int \<Rightarrow> int \<Rightarrow> world \<Rightarrow>
   (error + unit) option \<times> world" where
  "page_loop exc_init 0 srv self path query retry is_limited limit current_page count w = (None, w)"
| "page_loop exc_init (Suc fuel) srv self path query retry is_limited limit current_page count w =
     (case dict_copy query w of
        (page_query, w1) \<Rightarrow>
          (let w2 = dict_set page_query CURRENT_PAGE_KEY (JNum current_page) w1
           in case get_api exc_init srv self path page_query True retry w2 of
                (Inl e, w3) \<Rightarrow> (Some (Inl e), w3)
              | (Inr r, w3) \<Rightarrow>
                  (case response_json r of
                     Inl e \<Rightarrow> (Some (Inl e), w3)
                   | Inr res \<Rightarrow>
                       (case res of
                          JObj kvs \<Rightarrow>
                            (let items = (case map_of kvs ''items'' of
                                            None \<Rightarrow> JArr [] | Some v \<Rightarrow> v)
                             in if \<not> truthy items then (Some (Inr ()), w3)
                                else
                                  (case map_of kvs ''total_count'' of
                                     None \<Rightarrow> (Some (Inl (KeyError ''total_count'')), w3)
                                   | Some total_count \<Rightarrow>
                                       (case py_iter items of
                                          Inl e \<Rightarrow> (Some (Inl e), w3)
                                        | Inr xs \<Rightarrow>
                                            (case yield_items xs total_count is_limited limit
                                                    count w3 of
                                               (Continue, count', w4) \<Rightarrow>
                                                 page_loop exc_init fuel srv self path query retry
                                                   is_limited limit (current_page + 1) count' w4
                                             | (Return, count', w4) \<Rightarrow> (Some (Inr ()), w4)
                                             | (Raise e, count', w4) \<Rightarrow> (Some (Inl e), w4)))))
                        | _ \<Rightarrow> (Some (Inl AttributeError), w3)))))"

declare page_loop.simps [simp del]

text \<open>
  \<^verbatim>\<open>
  def get_paginated(self, path, *, query=None, limit=-1, retry=0):
      if limit == 0:
          return
      page_size = self.PAGE_SIZE
      is_limited = limit > 0
      if is_limited and limit < page_size:
          page_size = limit
      if query is not None:
          query = query.copy()
      else:
          query = {}
      query["searchCriteria[pageSize]"] = page_size
      current_page = 1
      count = 0
      while True: ...
  \<close>
  The caller's query is a reference to a dict object, or \<^verbatim>\<open>None\<close>.
\<close>

definition effective_page_size :: "magento \<Rightarrow> int \<Rightarrow> int" where
  "effective_page_size self limit =
     (if limit > 0 \<and> limit < PAGE_SIZE self then limit else PAGE_SIZE self)"

definition get_paginated ::
  "exception_init \<Rightarrow> nat \<Rightarrow> server \<Rightarrow> magento \<Rightarrow> string \<Rightarrow> nat option \<Rightarrow> int \<Rightarrow> int \<Rightarrow> world \<Rightarrow>
   (error + unit) option \<times> world" where
  "get_paginated exc_init fuel srv self path query limit retry w =
     (if limit = 0 then (Some (Inr ()), w)
      else
        let page_size = effective_page_size self limit;
            is_limited = (limit > 0)
        in case (case query of Some a \<Rightarrow> dict_copy a w | None \<Rightarrow> dict_new w) of
             (query1, w1) \<Rightarrow>
               (let w2 = dict_set query1 PAGE_SIZE_KEY (JNum page_size) w1
                in page_loop exc_init fuel srv self path query1 retry is_limited limit 1 0 w2))"

section \<open>\<^verbatim>\<open>get_products\<close> and \<^verbatim>\<open>get_product_by_query\<close>\<close>

text \<open>\<^verbatim>\<open>get_products(limit, query, retry)\<close> is \<^verbatim>\<open>get_paginated("/V1/products/", ...)\<close>.\<close>

definition get_products ::
  "exception_init \<Rightarrow> nat \<Rightarrow> server \<Rightarrow> magento \<Rightarrow> int \<Rightarrow> nat option \<Rightarrow> int \<Rightarrow> world \<Rightarrow> (error + unit) option \<times> world" where
  "get_products exc_init fuel srv self limit query retry w =
     get_paginated exc_init fuel srv self ''/V1/products/'' query limit retry w"

text \<open>
  \<^verbatim>\<open>
  def get_product_by_query(self, query, *, expect_one=True):
      if not expect_one:
          for product in self.get_products(query=query, limit=1):
              return product
          return None
      products = list(self.get_products(query=query, limit=2))
      if not products:
          return None
      if len(products) == 1:
          return products[0]
      raise MagentoAssertionError("Got more than one product for query %r" % query)
  \<close>
  \<^verbatim>\<open>list(...)\<close> runs the generator to its end and collects what it yields; an exception of the
  generator leaves \<^verbatim>\<open>list\<close>. The result is \<open>None\<close> when the fuel runs out. With
  \<^verbatim>\<open>expect_one=False\<close> the first item yielded is returned and the generator is dropped; with
  \<^verbatim>\<open>limit=1\<close> the generator has no event after its first item.
\<close>

definition get_product_by_query ::
  "exception_init \<Rightarrow> nat \<Rightarrow> server \<Rightarrow> magento \<Rightarrow> nat \<Rightarrow> bool \<Rightarrow> world \<Rightarrow> (error + json option) option \<times> world" where
  "get_product_by_query exc_init fuel srv self query expect_one w =
     (if \<not> expect_one then
        (case get_products exc_init fuel srv self 1 (Some query) 0 w of
           (out, w') \<Rightarrow>
             (case yielded (new_events w w') of
                product # _ \<Rightarrow> (Some (Inr (Some product)), w')
              | [] \<Rightarrow>
                  (case out of
                     None \<Rightarrow> (None, w')
                   | Some (Inl e) \<Rightarrow> (Some (Inl e), w')
                   | Some (Inr _) \<Rightarrow> (Some (Inr None), w'))))
      else
        (case get_products exc_init fuel srv self 2 (Some query) 0 w of
           (out, w') \<Rightarrow>
             (case out of
                None \<Rightarrow> (None, w')
              | Some (Inl e) \<Rightarrow> (Some (Inl e), w')
              | Some (Inr _) \<Rightarrow>
                  (case yielded (new_events w w') of
                     [] \<Rightarrow> (Some (Inr None), w')
                   | [product] \<Rightarrow> (Some (Inr (Some product)), w')
                   | _ \<Rightarrow> (Some (Inl MagentoAssertionError), w')))))"

section \<open>Notions of the specification\<close>

text \<open>Two examples of the constructor of \<^verbatim>\<open>MagentoException\<close>: one that returns on every
  argument, and one that raises \<open>e\<close> on every argument.\<close>

definition init_succeeds :: exception_init where
  "init_succeeds m p t r = None"

definition init_raises :: "error \<Rightarrow> exception_init" where
  "init_raises e m p t r = Some e"

text \<open>A server that answers the n-th call with the n-th response of a script, and with a last
  response from then on.\<close>

definition scripted_server :: "response list \<Rightarrow> response \<Rightarrow> server" where
  "scripted_server rs r n req = (if n < length rs then rs ! n else r)"

text \<open>A mandatory setting is missing when it is neither given as a non-empty argument nor set in
  the environment.\<close>

definition missing :: "string option \<Rightarrow> string option \<Rightarrow> bool" where
  "missing arg env = ((arg = None \<or> arg = Some []) \<and> env = None)"

text \<open>
  How many retries \<^verbatim>\<open>request_api\<close> makes: \<open>f i\<close> is the response to the i-th HTTP call, the
  first attempt is call \<open>n\<close>, and \<open>r\<close> retries are allowed. It counts the failed responses
  before the first \<^verbatim>\<open>ok\<close> one, and at most \<open>r\<close>.
\<close>

fun retries_used :: "(nat \<Rightarrow> response) \<Rightarrow> nat \<Rightarrow> nat \<Rightarrow> nat" where
  "retries_used f n 0 = 0"
| "retries_used f n (Suc r) = (if ok (f n) then 0 else Suc (retries_used f (Suc n) r))"

text \<open>
  The pagination contract of the server. A search request carries the page size \<open>p\<close> and the
  page number \<open>c\<close> (from 1) under two keys of its query parameters; the other keys are the
  search criteria. Page \<open>c\<close> of a list is its \<open>c\<close>-th block of \<open>p\<close> elements.
\<close>

definition page_slice :: "nat \<Rightarrow> nat \<Rightarrow> 'a list \<Rightarrow> 'a list" where
  "page_slice p c xs = take p (drop ((c - 1) * p) xs)"

definition search_criteria :: "pydict \<Rightarrow> pydict" where
  "search_criteria q = AList.delete PAGE_SIZE_KEY (AList.delete CURRENT_PAGE_KEY q)"

text \<open>
  A server honours the contract at \<open>url\<close>, with matching entities \<open>db criteria\<close> and reported
  count \<open>total_of criteria\<close>, when it answers every well-formed page request with a 2xx
  response whose body is a JSON object holding that page under \<^verbatim>\<open>items\<close> and the count under
  \<^verbatim>\<open>total_count\<close>. An honest server reports \<open>total_of criteria = length (db criteria)\<close>.
\<close>

definition honours_pagination ::
  "server \<Rightarrow> string \<Rightarrow> (pydict \<Rightarrow> json list) \<Rightarrow> (pydict \<Rightarrow> nat) \<Rightarrow> bool" where
  "honours_pagination srv url db total_of =
     (\<forall>n req p c.
        full_path req = url \<and> 0 < p \<and> 0 < c \<and>
        map_of (params req) PAGE_SIZE_KEY = Some (JNum (int p)) \<and>
        map_of (params req) CURRENT_PAGE_KEY = Some (JNum (int c)) \<longrightarrow>
        is_2xx (srv n req) \<and>
        (\<exists>kvs. json_body (srv n req) = Some (JObj kvs) \<and>
           map_of kvs ''items'' =
             Some (JArr (page_slice p c (db (search_criteria (params req))))) \<and>
           map_of kvs ''total_count'' =
             Some (JNum (int (total_of (search_criteria (params req)))))))"

text \<open>The caller's query, as a value: the dict the reference points to, or the empty dict for
  \<^verbatim>\<open>None\<close>. A reference is valid when it points into the heap.\<close>

definition query_of :: "world \<Rightarrow> nat option \<Rightarrow> pydict" where
  "query_of w query = (case query of None \<Rightarrow> [] | Some a \<Rightarrow> heap w ! a)"

definition valid_ref :: "world \<Rightarrow> nat option \<Rightarrow> bool" where
  "valid_ref w query = (case query of None \<Rightarrow> True | Some a \<Rightarrow> a < length (heap w))"

text \<open>The running count at which the generator stops at the latest: the first item of a page
  is yielded before any check, so the count is at least 1.\<close>

definition stop_count :: "bool \<Rightarrow> int \<Rightarrow> nat \<Rightarrow> nat" where
  "stop_count is_limited limit n =
     max 1 (if is_limited then min n (nat limit) else n)"

text \<open>Every HTTP call of the trace is made while the running count of yielded items, which
  starts at \<open>count\<close>, is below \<open>k\<close>.\<close>

fun requests_below :: "int \<Rightarrow> int \<Rightarrow> event list \<Rightarrow> bool" where
  "requests_below k count [] = True"
| "requests_below k count (Req r # es) = (count < k \<and> requests_below k count es)"
| "requests_below k count (Yield x # es) = requests_below k (count + 1) es"
| "requests_below k count (Sleep n # es) = requests_below k count es"


text \<open>
  An example of a server for the contract: every search matches the entities \<open>xs\<close>, and the
  reported count is \<open>total_count\<close>. The client never reads the text of a response that is
  \<^verbatim>\<open>ok\<close>; the example leaves it empty.
\<close>

definition paging_server :: "json list \<Rightarrow> nat \<Rightarrow> server" where
  "paging_server xs total_count n req =
     (case (map_of (params req) PAGE_SIZE_KEY, map_of (params req) CURRENT_PAGE_KEY) of
        (Some (JNum p), Some (JNum c)) \<Rightarrow>
          if 0 < p \<and> 0 < c then
            \<lparr>status_code = 200, text' = [],
             json_body = Some (JObj
               [(''items'', JArr (page_slice (nat p) (nat c) xs)),
                (''total_count'', JNum (int total_count))])\<rparr>
          else \<lparr>status_code = 400, text' = ''Bad Request'', json_body = None\<rparr>
      | _ \<Rightarrow> \<lparr>status_code = 400, text' = ''Bad Request'', json_body = None\<rparr>)"

text \<open>The query parameters of a page request: the caller's query with the page size and the
  page number set.\<close>

definition page_params :: "pydict \<Rightarrow> int \<Rightarrow> int \<Rightarrow> pydict" where
  "page_params q page_size current_page =
     AList.update CURRENT_PAGE_KEY (JNum current_page)
       (AList.update PAGE_SIZE_KEY (JNum page_size) q)"

section \<open>Events of a trace\<close>

lemma requests_append: "requests (xs @ ys) = requests xs @ requests ys"
  by (induction xs rule: requests.induct) simp_all

lemma yielded_append: "yielded (xs @ ys) = yielded xs @ yielded ys"
  by (induction xs rule: yielded.induct) simp_all

lemma sleeps_append: "sleeps (xs @ ys) = sleeps xs @ sleeps ys"
  by (induction xs rule: sleeps.induct) simp_all

section \<open>Limit zero\<close>

text \<open>
  Claim C7. With \<^verbatim>\<open>limit == 0\<close> the paginated fetch is exhausted at once: it yields nothing and
  makes no HTTP call (the world, and with it the trace, is unchanged), whatever the server,
  the query and the fuel are.
\<close>

theorem get_paginated_limit_zero:
  "get_paginated exc_init fuel srv self path query 0 retry w = (Some (Inr ()), w) \<and>
   yielded (new_events w (snd (get_paginated exc_init fuel srv self path query 0 retry w))) = [] \<and>
   requests (new_events w (snd (get_paginated exc_init fuel srv self path query 0 retry w))) = []"
  by (simp add: get_paginated_def new_events_def)

section \<open>Error mapping\<close>

lemma ok_iff: "ok r \<longleftrightarrow> \<not> (400 \<le> status_code r \<and> status_code r < 600)"
  by (simp add: ok_def raise_for_status_def)

text \<open>
  Claim C6, as the code has it. A response is an error when \<^verbatim>\<open>response.ok\<close> is false, which is
  when its status code is from 400 to 599 (every 2xx response is \<^verbatim>\<open>ok\<close>, and so is a 1xx or 3xx
  one). For an error response: if the text starts with \<^verbatim>\<open>{\<close> and the body is a JSON object with a
  top-level \<^verbatim>\<open>message\<close>, \<^verbatim>\<open>raise_for_response\<close> calls the constructor of \<^verbatim>\<open>MagentoException\<close>
  with that message, the \<^verbatim>\<open>parameters\<close> and \<^verbatim>\<open>trace\<close> fields (\<^verbatim>\<open>None\<close> when absent) and the
  response, and raises the exception it builds; when the constructor itself raises, that
  exception is what \<^verbatim>\<open>raise_for_response\<close> raises. Every other error response raises the
  \<^verbatim>\<open>HTTPError\<close> of \<^verbatim>\<open>raise_for_status\<close>. A response that is \<^verbatim>\<open>ok\<close> raises nothing.
\<close>

theorem raise_for_response_cases:
  "(ok r \<longrightarrow> raise_for_response exc_init r = Inr ()) \<and>
   (\<not> ok r \<and> take 1 (text' r) = ''{'' \<and> json_body r = Some (JObj kvs) \<and>
      map_of kvs ''message'' = Some m \<longrightarrow>
      raise_for_response exc_init r =
        Inl (case exc_init m (dict_get kvs ''parameters'') (dict_get kvs ''trace'') r of
               None \<Rightarrow> MagentoException m (dict_get kvs ''parameters'') (dict_get kvs ''trace'') r
             | Some e \<Rightarrow> e)) \<and>
   (\<not> ok r \<and> \<not> (take 1 (text' r) = ''{'' \<and>
        (\<exists>kvs' m'. json_body r = Some (JObj kvs') \<and> map_of kvs' ''message'' = Some m')) \<longrightarrow>
      raise_for_response exc_init r = Inl (HTTPError r)) \<and>
   (ok r \<longleftrightarrow> \<not> (400 \<le> status_code r \<and> status_code r < 600)) \<and>
   (is_2xx r \<longrightarrow> ok r)"
proof -
  have a: "ok r \<longrightarrow> raise_for_response exc_init r = Inr ()"
    by (simp add: raise_for_response_def)
  have b: "\<not> ok r \<and> take 1 (text' r) = ''{'' \<and> json_body r = Some (JObj kvs) \<and>
      map_of kvs ''message'' = Some m \<longrightarrow>
      raise_for_response exc_init r =
        Inl (case exc_init m (dict_get kvs ''parameters'') (dict_get kvs ''trace'') r of
               None \<Rightarrow> MagentoException m (dict_get kvs ''parameters'') (dict_get kvs ''trace'') r
             | Some e \<Rightarrow> e)"
    by (cases "text' r")
      (auto simp: raise_for_response_def magento_error_def split: option.splits)
  have c: "\<not> ok r \<and> \<not> (take 1 (text' r) = ''{'' \<and>
        (\<exists>kvs' m'. json_body r = Some (JObj kvs') \<and> map_of kvs' ''message'' = Some m')) \<longrightarrow>
      raise_for_response exc_init r = Inl (HTTPError r)"
    by (cases "text' r")
      (auto simp: raise_for_response_def magento_error_def raise_for_status_def ok_iff
        split: option.splits json.splits)
  have d: "is_2xx r \<longrightarrow> ok r"
    by (simp add: ok_iff is_2xx_def)
  from a b c d ok_iff show ?thesis by blast
qed

text \<open>The examples of the specification: status 422 with a message and parameters, status 500
  with a body that is not JSON, and a success; and a message whose constructor call raises
  \<^verbatim>\<open>IndexError\<close>.\<close>

theorem raise_for_response_witness:
  \<open>raise_for_response init_succeeds
     \<lparr>status_code = 422, text' = ''{"message": "SKU not found", "parameters": ["X1"]}'',
      json_body = Some (JObj [(''message'', JStr ''SKU not found''),
                              (''parameters'', JArr [JStr ''X1''])])\<rparr> =
   Inl (MagentoException (JStr ''SKU not found'') (JArr [JStr ''X1'']) JNull
     \<lparr>status_code = 422, text' = ''{"message": "SKU not found", "parameters": ["X1"]}'',
      json_body = Some (JObj [(''message'', JStr ''SKU not found''),
                              (''parameters'', JArr [JStr ''X1''])])\<rparr>) \<and>
   raise_for_response (init_raises IndexError)
     \<lparr>status_code = 400, text' = ''{"message": "%1 and %2 are missing", "parameters": ["sku"]}'',
      json_body = Some (JObj [(''message'', JStr ''%1 and %2 are missing''),
                              (''parameters'', JArr [JStr ''sku''])])\<rparr> =
   Inl IndexError \<and>
   raise_for_response init_succeeds
     \<lparr>status_code = 500, text' = ''Internal Server Error'', json_body = None\<rparr> =
   Inl (HTTPError \<lparr>status_code = 500, text' = ''Internal Server Error'', json_body = None\<rparr>) \<and>
   raise_for_response init_succeeds
     \<lparr>status_code = 200, text' = ''{}'', json_body = Some (JObj [])\<rparr> = Inr ()\<close>
proof (intro conjI)
  show \<open>raise_for_response init_succeeds
     \<lparr>status_code = 422, text' = ''{"message": "SKU not found", "parameters": ["X1"]}'',
      json_body = Some (JObj [(''message'', JStr ''SKU not found''),
                              (''parameters'', JArr [JStr ''X1''])])\<rparr> =
   Inl (MagentoException (JStr ''SKU not found'') (JArr [JStr ''X1'']) JNull
     \<lparr>status_code = 422, text' = ''{"message": "SKU not found", "parameters": ["X1"]}'',
      json_body = Some (JObj [(''message'', JStr ''SKU not found''),
                              (''parameters'', JArr [JStr ''X1''])])\<rparr>)\<close>
    using raise_for_response_cases [where exc_init = init_succeeds and r =
      \<open>\<lparr>status_code = 422, text' = ''{"message": "SKU not found", "parameters": ["X1"]}'',
        json_body = Some (JObj [(''message'', JStr ''SKU not found''),
                                (''parameters'', JArr [JStr ''X1''])])\<rparr>\<close>
      and kvs = \<open>[(''message'', JStr ''SKU not found''), (''parameters'', JArr [JStr ''X1''])]\<close>
      and m = \<open>JStr ''SKU not found''\<close>]
    by (simp add: dict_get_def init_succeeds_def)
  show \<open>raise_for_response (init_raises IndexError)
     \<lparr>status_code = 400, text' = ''{"message": "%1 and %2 are missing", "parameters": ["sku"]}'',
      json_body = Some (JObj [(''message'', JStr ''%1 and %2 are missing''),
                              (''parameters'', JArr [JStr ''sku''])])\<rparr> =
   Inl IndexError\<close>
    using raise_for_response_cases [where exc_init = \<open>init_raises IndexError\<close> and r =
      \<open>\<lparr>status_code = 400,
        text' = ''{"message": "%1 and %2 are missing", "parameters": ["sku"]}'',
        json_body = Some (JObj [(''message'', JStr ''%1 and %2 are missing''),
                                (''parameters'', JArr [JStr ''sku''])])\<rparr>\<close>
      and kvs = \<open>[(''message'', JStr ''%1 and %2 are missing''),
                  (''parameters'', JArr [JStr ''sku''])]\<close>
      and m = \<open>JStr ''%1 and %2 are missing''\<close>]
    by (simp add: dict_get_def init_raises_def)
  show \<open>raise_for_response init_succeeds
     \<lparr>status_code = 500, text' = ''Internal Server Error'', json_body = None\<rparr> =
   Inl (HTTPError \<lparr>status_code = 500, text' = ''Internal Server Error'', json_body = None\<rparr>)\<close>
    using raise_for_response_cases [where exc_init = init_succeeds and r =
      \<open>\<lparr>status_code = 500, text' = ''Internal Server Error'', json_body = None\<rparr>\<close>]
    by simp
  show \<open>raise_for_response init_succeeds
     \<lparr>status_code = 200, text' = ''{}'', json_body = Some (JObj [])\<rparr> = Inr ()\<close>
    using raise_for_response_cases [where exc_init = init_succeeds and r =
      \<open>\<lparr>status_code = 200, text' = ''{}'', json_body = Some (JObj [])\<rparr>\<close>]
    by simp
qed

text \<open>
  Claim C6 as stated fails twice. A 304 response is not 2xx, and nothing is raised for it.
  A 400 response whose body is a JSON object with a \<^verbatim>\<open>message\<close>, but whose text starts with a
  space, gets the generic \<^verbatim>\<open>HTTPError\<close>: the code looks at the first character of the text
  before it parses the body.
\<close>

theorem raise_for_response_counterexample:
  \<open>raise_for_response init_succeeds \<lparr>status_code = 304, text' = '''', json_body = None\<rparr> =
     Inr () \<and>
   \<not> is_2xx \<lparr>status_code = 304, text' = '''', json_body = None\<rparr> \<and>
   raise_for_response init_succeeds
     \<lparr>status_code = 400, text' = '' {"message": "SKU not found"}'',
      json_body = Some (JObj [(''message'', JStr ''SKU not found'')])\<rparr> =
   Inl (HTTPError
     \<lparr>status_code = 400, text' = '' {"message": "SKU not found"}'',
      json_body = Some (JObj [(''message'', JStr ''SKU not found'')])\<rparr>)\<close>
  by (simp add: raise_for_response_def magento_error_def raise_for_status_def ok_def is_2xx_def)

section \<open>The constructor\<close>

lemma py_or_None: "py_or a b = None \<longleftrightarrow> missing a b"
  by (auto simp: py_or_def missing_def split: option.splits)

lemma Magento_init_unfold:
  "Magento_init version environ token url sc lg ro ua bps =
     (case py_or token (map_of environ ''PYMAGENTO_TOKEN'') of
        None \<Rightarrow> Inl (RuntimeError ''Missing API token'')
      | Some tok \<Rightarrow>
          (case py_or url (map_of environ ''PYMAGENTO_BASE_URL'') of
             None \<Rightarrow> Inl (RuntimeError ''Missing API base URL'')
           | Some u \<Rightarrow>
               Inr \<lparr> base_url = rstrip CHR ''/'' u,
                     user_agent = py_or_default (py_or ua (map_of environ ''PYMAGENTO_USER_AGENT''))
                          (USER_AGENT version),
                     read_only = ro,
                     PAGE_SIZE = (case bps of None \<Rightarrow> 1000 | Some n \<Rightarrow> n),
                     scope = py_or_default (py_or sc (map_of environ ''PYMAGENTO_SCOPE'')) DEFAULT_SCOPE,
                     logger = lg,
                     authorization = ''Bearer '' @ tok \<rparr>))"
  by (simp add: Magento_init_def Let_def)

text \<open>
  Claim C8, as the code has it. The token and the base URL are mandatory: when one of them is
  missing, the constructor raises \<^verbatim>\<open>RuntimeError\<close> (the token is looked at first), and it makes
  no HTTP call on any path: it has no access to the transport. The scope is not mandatory:
  a missing scope is \<^verbatim>\<open>"all"\<close>, and the constructor succeeds whenever the token and the base
  URL are there.
\<close>

theorem Magento_init_mandatory:
  "(Magento_init version environ token url sc lg ro ua bps = Inl (RuntimeError ''Missing API token'')
      \<longleftrightarrow> missing token (map_of environ ''PYMAGENTO_TOKEN'')) \<and>
   (Magento_init version environ token url sc lg ro ua bps = Inl (RuntimeError ''Missing API base URL'')
      \<longleftrightarrow> \<not> missing token (map_of environ ''PYMAGENTO_TOKEN'') \<and>
          missing url (map_of environ ''PYMAGENTO_BASE_URL'')) \<and>
   (\<not> missing token (map_of environ ''PYMAGENTO_TOKEN'') \<and>
    \<not> missing url (map_of environ ''PYMAGENTO_BASE_URL'') \<longrightarrow>
      (\<exists>c. Magento_init version environ token url sc lg ro ua bps = Inr c \<and>
           Some (authorization c) =
             map_option (\<lambda>t. ''Bearer '' @ t) (py_or token (map_of environ ''PYMAGENTO_TOKEN'')) \<and>
           scope c = py_or_default (py_or sc (map_of environ ''PYMAGENTO_SCOPE'')) ''all'' \<and>
           (missing sc (map_of environ ''PYMAGENTO_SCOPE'') \<longrightarrow> scope c = ''all'')))"
proof (cases "py_or token (map_of environ ''PYMAGENTO_TOKEN'')")
  case None
  then show ?thesis
    by (simp add: Magento_init_unfold py_or_None [symmetric])
next
  case tok: (Some t)
  show ?thesis
  proof (cases "py_or url (map_of environ ''PYMAGENTO_BASE_URL'')")
    case None
    with tok show ?thesis
      by (simp add: Magento_init_unfold py_or_None [symmetric])
  next
    case (Some u)
    with tok show ?thesis
      by (simp add: Magento_init_unfold py_or_None [symmetric] DEFAULT_SCOPE_def)
        (simp add: py_or_default_def)
  qed
qed

text \<open>A base URL from the environment (stored without its trailing slash) and no scope
  argument; a missing token; a missing base URL.\<close>

theorem Magento_init_witness:
  "Magento_init ''1.0'' [(''PYMAGENTO_BASE_URL'', ''https://shop.test/''), (''PYMAGENTO_SCOPE'', ''fr'')]
     (Some ''secret'') None None False False None None =
   Inr \<lparr>base_url = ''https://shop.test'', user_agent = ''Bixoto/PyMagento 1.0 +git.io/JDp0h'',
        read_only = False, PAGE_SIZE = 1000, scope = ''fr'', logger = False,
        authorization = ''Bearer secret''\<rparr> \<and>
   Magento_init ''1.0'' [(''PYMAGENTO_BASE_URL'', ''https://shop.test/'')]
     None None (Some ''fr'') False False None None = Inl (RuntimeError ''Missing API token'') \<and>
   Magento_init ''1.0'' [] (Some ''secret'') (Some '''') (Some ''fr'') False False None None =
     Inl (RuntimeError ''Missing API base URL'')"
proof -
  have a: "Magento_init ''1.0'' [(''PYMAGENTO_BASE_URL'', ''https://shop.test/''), (''PYMAGENTO_SCOPE'', ''fr'')]
     (Some ''secret'') None None False False None None =
   Inr \<lparr>base_url = ''https://shop.test'', user_agent = ''Bixoto/PyMagento 1.0 +git.io/JDp0h'',
        read_only = False, PAGE_SIZE = 1000, scope = ''fr'', logger = False,
        authorization = ''Bearer secret''\<rparr>"
    using Magento_init_mandatory [of "''1.0''"
        "[(''PYMAGENTO_BASE_URL'', ''https://shop.test/''), (''PYMAGENTO_SCOPE'', ''fr'')]"
        "Some ''secret''" None None False False None None]
    by (simp add: missing_def Magento_init_def py_or_def py_or_default_def USER_AGENT_def
        rstrip_def)
  have b: "Magento_init ''1.0'' [(''PYMAGENTO_BASE_URL'', ''https://shop.test/'')]
     None None (Some ''fr'') False False None None = Inl (RuntimeError ''Missing API token'')"
    using Magento_init_mandatory [of "''1.0''" "[(''PYMAGENTO_BASE_URL'', ''https://shop.test/'')]"
        None None "Some ''fr''" False False None None]
    by (simp add: missing_def)
  have c: "Magento_init ''1.0'' [] (Some ''secret'') (Some '''') (Some ''fr'') False False None None =
     Inl (RuntimeError ''Missing API base URL'')"
    using Magento_init_mandatory [of "''1.0''" "[]" "Some ''secret''" "Some ''''" "Some ''fr''"
        False False None None]
    by (simp add: missing_def)
  from a b c show ?thesis by simp
qed

text \<open>Claim C8 as stated fails for the scope: with a token and a base URL, no scope argument and
  an empty environment, the client is built, with scope \<^verbatim>\<open>"all"\<close>.\<close>

theorem Magento_init_scope_counterexample:
  "Magento_init ''1.0'' [] (Some ''secret'') (Some ''https://shop.test'') None False False None None =
   Inr \<lparr>base_url = ''https://shop.test'', user_agent = ''Bixoto/PyMagento 1.0 +git.io/JDp0h'',
        read_only = False, PAGE_SIZE = 1000, scope = ''all'', logger = False,
        authorization = ''Bearer secret''\<rparr>"
  by (simp add: Magento_init_def py_or_def py_or_default_def USER_AGENT_def DEFAULT_SCOPE_def
      rstrip_def)

section \<open>Retries\<close>

lemma calls_emit [simp]:
  "calls (emit (Req r) w) = Suc (calls w)"
  "calls (emit (Sleep n) w) = calls w"
  "calls (emit (Yield x) w) = calls w"
  by (simp_all add: calls_def emit_def requests_append)

lemma retries_used_le: "retries_used f n r \<le> r"
  by (induction r arbitrary: n) simp_all

lemma retries_used_failed: "i < retries_used f n r \<Longrightarrow> \<not> ok (f (n + i))"
proof (induction r arbitrary: n i)
  case 0
  then show ?case by simp
next
  case (Suc r)
  show ?case
  proof (cases i)
    case 0
    with Suc.prems show ?thesis by (simp split: if_splits)
  next
    case (Suc i')
    with Suc.prems have "i' < retries_used f (Suc n) r" by (simp split: if_splits)
    from Suc.IH [OF this] Suc show ?thesis by simp
  qed
qed

lemma retries_used_stops: "retries_used f n r < r \<Longrightarrow> ok (f (n + retries_used f n r))"
proof (induction r arbitrary: n)
  case 0
  then show ?case by simp
next
  case (Suc r)
  show ?case
  proof (cases "ok (f n)")
    case True
    then show ?thesis by simp
  next
    case False
    with Suc.prems have "retries_used f (Suc n) r < r" by simp
    from Suc.IH [OF this] False show ?thesis by simp
  qed
qed

lemma retries_used_first: "i \<le> r \<Longrightarrow> ok (f (n + i)) \<Longrightarrow> retries_used f n r \<le> i"
  using retries_used_failed [of i f n r] by (meson not_le_imp_less)

lemma is_read_method_get [simp]: "is_read_method ''get''"
  by (simp add: is_read_method_def upper_def)

lemma http_call_open:
  "\<not> (read_only self \<and> \<not> is_read_method (http_method req)) \<Longrightarrow>
   http_call srv self req w = (Inr (srv (calls w) req), emit (Req req) w)"
  by (auto simp: http_call_def)

lemma http_call_blocked:
  "read_only self \<and> \<not> is_read_method (http_method req) \<Longrightarrow>
   http_call srv self req w = (Inl AssertionError, w)"
  by (simp add: http_call_def)

lemma retry_loop_spec:
  "\<not> (read_only self \<and> \<not> is_read_method (http_method req)) \<Longrightarrow>
   calls w = Suc n \<Longrightarrow>
   retry_loop srv self req (srv n req) retry w =
     (Inr (srv (n + retries_used (\<lambda>i. srv i req) n (nat retry)) req),
      w\<lparr>trace := trace w @ concat (replicate (retries_used (\<lambda>i. srv i req) n (nat retry))
                                      [Sleep 10, Req req])\<rparr>)"
proof (induction "nat retry" arbitrary: retry n w)
  case 0
  then have "\<not> retry > 0" by simp
  with 0 show ?case by (simp add: retry_loop.simps [of srv self req _ retry])
next
  case (Suc k)
  then have pos: "retry > 0" and k: "k = nat (retry - 1)" by simp_all
  from Suc.hyps(2) have nr: "nat retry = Suc k" by simp
  note opn = Suc.prems(1)
  show ?case
  proof (cases "ok (srv n req)")
    case True
    then show ?thesis
      by (simp add: retry_loop.simps [of srv self req _ retry] nr)
  next
    case False
    let ?w1 = "emit (Req req) (emit (Sleep 10) w)"
    have c1: "calls ?w1 = Suc (Suc n)" using Suc.prems(2) by simp
    have step: "retry_loop srv self req (srv n req) retry w =
        retry_loop srv self req (srv (Suc n) req) (retry - 1) ?w1"
      using False pos Suc.prems(2)
      by (simp add: retry_loop.simps [of srv self req "srv n req" retry] http_call_open [OF opn])
    show ?thesis
      unfolding step Suc.hyps(1) [OF k opn c1]
      using False by (simp add: nr k [symmetric] emit_def)
  qed
qed

text \<open>
  Claim C5, as the code has it. The loop tests \<^verbatim>\<open>r.ok\<close>, which is false for a status code from
  400 to 599 only. With \<open>retry \<ge> 0\<close>, a path under \<^verbatim>\<open>/V1/\<close> and a client that is not read-only
  (or a method that a read-only client lets through), \<^verbatim>\<open>request_api\<close> makes \<open>j + 1\<close> HTTP calls,
  where \<open>j\<close> is the number of retries: \<open>j\<close> is at most \<open>retry\<close>, it is 0 when \<open>retry\<close> is 0, every
  response before the last was not \<^verbatim>\<open>ok\<close> (no retry after a response that is \<^verbatim>\<open>ok\<close>), the loop
  stops before \<open>retry\<close> retries only at a response that is \<^verbatim>\<open>ok\<close>, and it stops at the first
  response that is \<^verbatim>\<open>ok\<close>. Each retry is one sleep of 10 followed by one call, and the last
  response is returned (or handed to \<^verbatim>\<open>raise_for_response\<close> when \<^verbatim>\<open>throw\<close> is set). A path
  outside \<^verbatim>\<open>/V1/\<close> fails the assertion before any call.
\<close>

theorem request_api_retry:
  fixes exc_init :: exception_init and srv :: server and self :: magento and m path :: string
    and ps :: pydict and async_bulk throw :: bool and retry :: int and w :: world
  assumes "0 \<le> retry"
  defines "req \<equiv> \<lparr>http_method = m, full_path = make_full_path self async_bulk path, params = ps\<rparr>"
  defines "j \<equiv> retries_used (\<lambda>i. srv i req) (calls w) (nat retry)"
  defines "w' \<equiv> w\<lparr>trace := trace w @ Req req # concat (replicate j [Sleep 10, Req req])\<rparr>"
  shows
    "(prefix ''/V1/'' path \<and> (read_only self \<longrightarrow> is_read_method m) \<longrightarrow>
        request_api exc_init srv self m path ps async_bulk False retry w =
          (Inr (srv (calls w + j) req), w') \<and>
        request_api exc_init srv self m path ps async_bulk True retry w =
          (case raise_for_response exc_init (srv (calls w + j) req) of
             Inl e \<Rightarrow> Inl e | Inr _ \<Rightarrow> Inr (srv (calls w + j) req), w')) \<and>
     (\<not> prefix ''/V1/'' path \<longrightarrow>
        request_api exc_init srv self m path ps async_bulk throw retry w = (Inl AssertionError, w)) \<and>
     requests (new_events w w') = replicate (Suc j) req \<and>
     sleeps (new_events w w') = replicate j 10 \<and>
     j \<le> nat retry \<and>
     (retry = 0 \<longrightarrow> j = 0) \<and>
     (\<forall>i<j. \<not> ok (srv (calls w + i) req)) \<and>
     (j < nat retry \<longrightarrow> ok (srv (calls w + j) req)) \<and>
     (\<forall>i\<le>nat retry. ok (srv (calls w + i) req) \<longrightarrow> j \<le> i)"
proof -
  have run: "request_api exc_init srv self m path ps async_bulk False retry w =
          (Inr (srv (calls w + j) req), w') \<and>
        request_api exc_init srv self m path ps async_bulk True retry w =
          (case raise_for_response exc_init (srv (calls w + j) req) of
             Inl e \<Rightarrow> Inl e | Inr _ \<Rightarrow> Inr (srv (calls w + j) req), w')"
    if P: "prefix ''/V1/'' path" and opn: "read_only self \<longrightarrow> is_read_method m"
  proof -
    have o: "\<not> (read_only self \<and> \<not> is_read_method (http_method req))"
      using opn by (simp add: req_def)
    have c0: "calls (emit (Req req) w) = Suc (calls w)" by simp
    note loop = retry_loop_spec [OF o c0, where srv = srv and retry = retry, folded j_def]
    show ?thesis
      using P
      by (simp add: request_api_def http_call_open [OF o] req_def [symmetric] loop Let_def)
        (simp add: emit_def w'_def split: sum.splits)
  qed
  have bad: "request_api exc_init srv self m path ps async_bulk throw retry w =
      (Inl AssertionError, w)"
    if "\<not> prefix ''/V1/'' path"
    using that by (simp add: request_api_def)
  have rq: "requests (concat (replicate n [Sleep 10, Req req])) = replicate n req" for n
    by (induction n) simp_all
  have sl: "sleeps (concat (replicate n [Sleep 10, Req req])) = replicate n 10" for n
    by (induction n) simp_all
  have ev: "requests (new_events w w') = replicate (Suc j) req \<and>
     sleeps (new_events w w') = replicate j 10"
    by (simp add: new_events_def w'_def rq sl)
  have le: "j \<le> nat retry" by (simp add: j_def retries_used_le)
  have z: "retry = 0 \<longrightarrow> j = 0" by (simp add: j_def)
  have f: "\<forall>i<j. \<not> ok (srv (calls w + i) req)"
    using retries_used_failed [of _ "\<lambda>i. srv i req" "calls w" "nat retry"] by (simp add: j_def)
  have s: "j < nat retry \<longrightarrow> ok (srv (calls w + j) req)"
    using retries_used_stops [of "\<lambda>i. srv i req" "calls w" "nat retry"] by (simp add: j_def)
  have t: "\<forall>i\<le>nat retry. ok (srv (calls w + i) req) \<longrightarrow> j \<le> i"
    using retries_used_first [of _ "nat retry" "\<lambda>i. srv i req" "calls w"]
    by (auto simp: j_def)
  from run bad ev le z f s t show ?thesis by blast
qed

text \<open>With two retries and a server that answers 503 twice and then 200: three calls, two
  sleeps, and the successful response.\<close>

theorem request_api_retry_witness:
  "request_api init_succeeds
     (scripted_server
        [\<lparr>status_code = 503, text' = ''busy'', json_body = None\<rparr>,
         \<lparr>status_code = 503, text' = ''busy'', json_body = None\<rparr>]
        \<lparr>status_code = 200, text' = ''[]'', json_body = Some (JArr [])\<rparr>)
     \<lparr>base_url = ''https://shop.test'', user_agent = ''ua'', read_only = False, PAGE_SIZE = 1000,
      scope = ''all'', logger = False, authorization = ''Bearer secret''\<rparr>
     ''get'' ''/V1/modules'' [] False False 2 \<lparr>heap = [], trace = []\<rparr> =
   (Inr \<lparr>status_code = 200, text' = ''[]'', json_body = Some (JArr [])\<rparr>,
    \<lparr>heap = [],
     trace = [Req \<lparr>http_method = ''get'', full_path = ''/rest/all/V1/modules'', params = []\<rparr>,
              Sleep 10,
              Req \<lparr>http_method = ''get'', full_path = ''/rest/all/V1/modules'', params = []\<rparr>,
              Sleep 10,
              Req \<lparr>http_method = ''get'', full_path = ''/rest/all/V1/modules'', params = []\<rparr>]\<rparr>)"
  using request_api_retry [where retry = 2 and w = "\<lparr>heap = [], trace = []\<rparr>"
     and path = "''/V1/modules''" and m = "''get''" and ps = "[]" and async_bulk = False
     and throw = False and exc_init = init_succeeds
     and srv = "scripted_server
        [\<lparr>status_code = 503, text' = ''busy'', json_body = None\<rparr>,
         \<lparr>status_code = 503, text' = ''busy'', json_body = None\<rparr>]
        \<lparr>status_code = 200, text' = ''[]'', json_body = Some (JArr [])\<rparr>"
     and self = "\<lparr>base_url = ''https://shop.test'', user_agent = ''ua'', read_only = False,
      PAGE_SIZE = 1000, scope = ''all'', logger = False, authorization = ''Bearer secret''\<rparr>"]
  by (simp add: calls_def make_full_path_def numeral_2_eq_2 ok_iff scripted_server_def)

text \<open>
  Claim C5 as stated fails for a response that is neither 2xx nor an error: against a server
  that answers 304 and then 200, with two retries allowed, \<^verbatim>\<open>request_api\<close> makes one call and
  returns the 304 response. It does not go on to the first 2xx response.
\<close>

theorem request_api_retry_counterexample:
  "request_api init_succeeds
     (scripted_server [\<lparr>status_code = 304, text' = '''', json_body = None\<rparr>]
        \<lparr>status_code = 200, text' = ''[]'', json_body = Some (JArr [])\<rparr>)
     \<lparr>base_url = ''https://shop.test'', user_agent = ''ua'', read_only = False, PAGE_SIZE = 1000,
      scope = ''all'', logger = False, authorization = ''Bearer secret''\<rparr>
     ''get'' ''/V1/modules'' [] False False 2 \<lparr>heap = [], trace = []\<rparr> =
   (Inr \<lparr>status_code = 304, text' = '''', json_body = None\<rparr>,
    \<lparr>heap = [],
     trace = [Req \<lparr>http_method = ''get'', full_path = ''/rest/all/V1/modules'',
                   params = []\<rparr>]\<rparr>) \<and>
   \<not> is_2xx \<lparr>status_code = 304, text' = '''', json_body = None\<rparr>"
proof (rule conjI)
  show "request_api init_succeeds
     (scripted_server [\<lparr>status_code = 304, text' = '''', json_body = None\<rparr>]
        \<lparr>status_code = 200, text' = ''[]'', json_body = Some (JArr [])\<rparr>)
     \<lparr>base_url = ''https://shop.test'', user_agent = ''ua'', read_only = False, PAGE_SIZE = 1000,
      scope = ''all'', logger = False, authorization = ''Bearer secret''\<rparr>
     ''get'' ''/V1/modules'' [] False False 2 \<lparr>heap = [], trace = []\<rparr> =
   (Inr \<lparr>status_code = 304, text' = '''', json_body = None\<rparr>,
    \<lparr>heap = [],
     trace = [Req \<lparr>http_method = ''get'', full_path = ''/rest/all/V1/modules'',
                   params = []\<rparr>]\<rparr>)"
    by (simp add: request_api_def http_call_def retry_loop.simps ok_iff scripted_server_def
        calls_def emit_def make_full_path_def Let_def)
  show "\<not> is_2xx \<lparr>status_code = 304, text' = '''', json_body = None\<rparr>"
    by (simp add: is_2xx_def)
qed

section \<open>One page of the loop\<close>

lemma world_emit [simp]:
  "heap (emit e w) = heap w"
  "trace (emit e w) = trace w @ [e]"
  by (simp_all add: emit_def)

lemma keys_distinct [simp]:
  "PAGE_SIZE_KEY \<noteq> CURRENT_PAGE_KEY" "CURRENT_PAGE_KEY \<noteq> PAGE_SIZE_KEY"
  by (simp_all add: PAGE_SIZE_KEY_def CURRENT_PAGE_KEY_def)

lemma search_criteria_update [simp]:
  "search_criteria (AList.update CURRENT_PAGE_KEY v q) = search_criteria q"
  "search_criteria (AList.update PAGE_SIZE_KEY v q) = search_criteria q"
  by (simp_all add: search_criteria_def delete_update_same delete_update)

lemma get_api_ok:
  assumes "prefix ''/V1/'' path"
    and "ok (srv (calls w) \<lparr>http_method = ''get'', full_path = make_full_path self False path,
                            params = heap w ! a\<rparr>)"
  shows "get_api exc_init srv self path a True retry w =
     (Inr (srv (calls w) \<lparr>http_method = ''get'', full_path = make_full_path self False path,
                           params = heap w ! a\<rparr>),
      emit (Req \<lparr>http_method = ''get'', full_path = make_full_path self False path,
                 params = heap w ! a\<rparr>) w)"
  using assms
  by (simp add: get_api_def request_api_def http_call_def retry_loop.simps raise_for_response_def
      Let_def)

lemma page_query_world:
  "qa < length (heap w) \<Longrightarrow>
   dict_copy qa w = (length (heap w), w\<lparr>heap := heap w @ [heap w ! qa]\<rparr>) \<and>
   dict_set (length (heap w)) k v (w\<lparr>heap := heap w @ [heap w ! qa]\<rparr>) =
     w\<lparr>heap := heap w @ [AList.update k v (heap w ! qa)]\<rparr>"
  by (simp add: dict_copy_def dict_set_def)

lemma yield_items_spec:
  "yield_items xs (JNum T) lim limit count w =
     (let room = max 1 ((if lim then min T limit else T) - count) in
      if int (length xs) < room
      then (Continue, count + int (length xs), w\<lparr>trace := trace w @ map Yield xs\<rparr>)
      else (Return, count + room, w\<lparr>trace := trace w @ map Yield (take (nat room) xs)\<rparr>))"
proof (induction xs arbitrary: count w)
  case Nil
  then show ?case by (simp add: Let_def)
next
  case (Cons x xs)
  show ?case
  proof (cases "count + 1 \<ge> (if lim then min T limit else T)")
    case True
    then have "max 1 ((if lim then min T limit else T) - count) = 1" by simp
    moreover from True have "yield_items (x # xs) (JNum T) lim limit count w =
        (Return, count + 1, emit (Yield x) w)"
      by (auto simp: Let_def split: bool.splits if_splits)
    ultimately show ?thesis by (simp add: Let_def emit_def)
  next
    case False
    then have room: "max 1 ((if lim then min T limit else T) - count) =
        (if lim then min T limit else T) - count"
      and room': "max 1 ((if lim then min T limit else T) - (count + 1)) =
        (if lim then min T limit else T) - count - 1"
      by (simp_all split: if_splits)
    from False have step: "yield_items (x # xs) (JNum T) lim limit count w =
        yield_items xs (JNum T) lim limit (count + 1) (emit (Yield x) w)"
      by (auto simp: Let_def split: bool.splits if_splits)
    from False have pos: "0 < (if lim then min T limit else T) - count - 1" by (simp split: if_splits)
    show ?thesis
      unfolding step Cons.IH room room' Let_def
      using pos by (auto simp: emit_def take_Cons' nat_diff_distrib)
  qed
qed

lemma page_loop_request:
  assumes "qa < length (heap w)" and "prefix ''/V1/'' path"
    and "req = \<lparr>http_method = ''get'', full_path = make_full_path self False path,
                params = AList.update CURRENT_PAGE_KEY (JNum cp) (heap w ! qa)\<rparr>"
    and "ok (srv (calls w) req)"
  shows "page_loop exc_init (Suc fuel) srv self path qa retry lim limit cp count w =
     (let w3 = w\<lparr>heap := heap w @ [params req], trace := trace w @ [Req req]\<rparr> in
      case response_json (srv (calls w) req) of
        Inl e \<Rightarrow> (Some (Inl e), w3)
      | Inr res \<Rightarrow>
          (case res of
             JObj kvs \<Rightarrow>
               (let items = (case map_of kvs ''items'' of None \<Rightarrow> JArr [] | Some v \<Rightarrow> v)
                in if \<not> truthy items then (Some (Inr ()), w3)
                   else
                     (case map_of kvs ''total_count'' of
                        None \<Rightarrow> (Some (Inl (KeyError ''total_count'')), w3)
                      | Some total_count \<Rightarrow>
                          (case py_iter items of
                             Inl e \<Rightarrow> (Some (Inl e), w3)
                           | Inr xs \<Rightarrow>
                               (case yield_items xs total_count lim limit count w3 of
                                  (Continue, count', w4) \<Rightarrow>
                                    page_loop exc_init fuel srv self path qa retry lim limit (cp + 1) count' w4
                                | (Return, count', w4) \<Rightarrow> (Some (Inr ()), w4)
                                | (Raise e, count', w4) \<Rightarrow> (Some (Inl e), w4)))))
           | _ \<Rightarrow> (Some (Inl AttributeError), w3)))"
proof -
  let ?w2 = "w\<lparr>heap := heap w @ [params req]\<rparr>"
  have w2: "dict_copy qa w = (length (heap w), w\<lparr>heap := heap w @ [heap w ! qa]\<rparr>)"
    "dict_set (length (heap w)) CURRENT_PAGE_KEY (JNum cp) (w\<lparr>heap := heap w @ [heap w ! qa]\<rparr>) = ?w2"
    using page_query_world [OF assms(1)] by (simp_all add: assms(3))
  have rd: "heap ?w2 ! length (heap w) = params req" by simp
  have cl: "calls ?w2 = calls w" by (simp add: calls_def)
  have rq: "\<lparr>http_method = ''get'', full_path = make_full_path self False path,
             params = heap ?w2 ! length (heap w)\<rparr> = req"
    by (simp add: assms(3))
  have ga: "get_api exc_init srv self path (length (heap w)) True retry ?w2 =
      (Inr (srv (calls w) req), emit (Req req) ?w2)"
    using get_api_ok [of path srv ?w2 self "length (heap w)" exc_init retry] assms(2,4)
    unfolding rq cl by simp
  have em: "emit (Req req) ?w2 = w\<lparr>heap := heap w @ [params req], trace := trace w @ [Req req]\<rparr>"
    by (simp add: emit_def)
  show ?thesis
    by (simp only: page_loop.simps w2 split ga em Let_def sum.case)
qed


lemma page_loop_items:
  assumes "qa < length (heap w)" and "prefix ''/V1/'' path"
    and "req = \<lparr>http_method = ''get'', full_path = make_full_path self False path,
                params = AList.update CURRENT_PAGE_KEY (JNum cp) (heap w ! qa)\<rparr>"
    and "ok (srv (calls w) req)"
    and "json_body (srv (calls w) req) = Some (JObj kvs)"
    and "map_of kvs ''items'' = Some (JArr xs)" and "xs \<noteq> []"
    and "map_of kvs ''total_count'' = Some (JNum T)"
    and "room = max 1 ((if lim then min T limit else T) - count)"
  shows "page_loop exc_init (Suc fuel) srv self path qa retry lim limit cp count w =
     (if int (length xs) < room
      then page_loop exc_init fuel srv self path qa retry lim limit (cp + 1) (count + int (length xs))
             (w\<lparr>heap := heap w @ [params req], trace := trace w @ Req req # map Yield xs\<rparr>)
      else (Some (Inr ()),
            w\<lparr>heap := heap w @ [params req],
              trace := trace w @ Req req # map Yield (take (nat room) xs)\<rparr>))"
  unfolding page_loop_request [where srv = srv and w = w and req = req, OF assms(1-4)]
  by (simp add: assms(5-9) response_json_def yield_items_spec Let_def)

lemma requests_below_yields [simp]: "requests_below k n (map Yield ys)"
  by (induction ys arbitrary: n) simp_all

lemma requests_below_append:
  "requests_below k n (es @ fs) \<longleftrightarrow>
     requests_below k n es \<and> requests_below k (n + int (length (yielded es))) fs"
  by (induction k n es rule: requests_below.induct) (simp_all add: add.assoc)

lemma yielded_map_Yield [simp]: "yielded (map Yield ys) = ys"
  by (induction ys) simp_all

lemma requests_map_Yield [simp]: "requests (map Yield ys) = []"
  by (induction ys) simp_all

lemma sleeps_map_Yield [simp]: "sleeps (map Yield ys) = []"
  by (induction ys) simp_all

lemma room_stop_count:
  assumes "n0 < stop_count lim limit T" and "lim \<longrightarrow> 0 < limit"
  shows "max 1 ((if lim then min (int T) limit else int T) - int n0) =
     int (stop_count lim limit T - n0)"
  using assms by (auto simp: stop_count_def max_def min_def split: if_splits)

lemma page_loop_paging:
  fixes p c n0 :: nat
  assumes H: "honours_pagination srv (make_full_path self False path) db total_of"
    and P: "prefix ''/V1/'' path"
    and lim: "is_limited \<longrightarrow> 0 < limit"
    and p: "0 < p"
    and qa: "qa < length (heap w)"
    and ps: "map_of (heap w ! qa) PAGE_SIZE_KEY = Some (JNum (int p))"
    and q: "heap w ! qa = q"
    and M: "M = stop_count is_limited limit (total_of (search_criteria q))"
      "M \<le> length (db (search_criteria q))"
    and c: "0 < c" "n0 = (c - 1) * p" "n0 < M"
    and fuel: "M - n0 \<le> fuel"
  shows "\<exists>hp evs.
     page_loop exc_init fuel srv self path qa retry is_limited limit (int c) (int n0) w =
       (Some (Inr ()), w\<lparr>heap := heap w @ hp, trace := trace w @ evs\<rparr>) \<and>
     yielded evs = take (M - n0) (drop n0 (db (search_criteria q))) \<and>
     map (\<lambda>r. map_of (params r) CURRENT_PAGE_KEY) (requests evs) =
       map (\<lambda>i. Some (JNum (int i))) [c ..< Suc (c + (M - n0 - 1) div p)] \<and>
     sleeps evs = [] \<and>
     requests_below (int M) (int n0) evs"
  using qa ps q c fuel
proof (induction fuel arbitrary: c n0 w)
  case 0
  then show ?case by simp
next
  case (Suc fuel)
  let ?all = "db (search_criteria q)"
  let ?T = "total_of (search_criteria q)"
  let ?req = "\<lparr>http_method = ''get'', full_path = make_full_path self False path,
                params = AList.update CURRENT_PAGE_KEY (JNum (int c)) (heap w ! qa)\<rparr>"
  let ?xs = "take p (drop n0 ?all)"
  note qa = \<open>qa < length (heap w)\<close> and hq = \<open>heap w ! qa = q\<close>
    and cpos = \<open>0 < c\<close> and n0 = \<open>n0 = (c - 1) * p\<close> and n0M = \<open>n0 < M\<close>
  have par: "map_of (params ?req) PAGE_SIZE_KEY = Some (JNum (int p))"
    "map_of (params ?req) CURRENT_PAGE_KEY = Some (JNum (int c))"
    using Suc.prems(2) by (simp_all add: update_conv')
  have sc: "search_criteria (params ?req) = search_criteria q" by (simp add: hq)
  from H [unfolded honours_pagination_def, rule_format, of ?req p c "calls w"] par p cpos
  obtain kvs where ok2: "is_2xx (srv (calls w) ?req)"
    and body: "json_body (srv (calls w) ?req) = Some (JObj kvs)"
    and items: "map_of kvs ''items'' = Some (JArr ?xs)"
    and total: "map_of kvs ''total_count'' = Some (JNum (int ?T))"
    unfolding sc page_slice_def n0 [symmetric] by auto
  have ok: "ok (srv (calls w) ?req)" using ok2 by (simp add: ok_iff is_2xx_def)
  have ne: "?xs \<noteq> []" using n0M M(2) p by simp
  have room: "max 1 ((if is_limited then min (int ?T) limit else int ?T) - int n0) = int (M - n0)"
    using room_stop_count [of n0 is_limited limit ?T] n0M lim unfolding M(1) by blast
  note step = page_loop_items [where srv = srv and w = w and req = ?req and fuel = fuel
      and retry = retry, OF qa P refl ok body items ne total room [symmetric]]
  show ?case
  proof (cases "int (length ?xs) < int (M - n0)")
    case False
    then have le: "M - n0 \<le> p" using n0M M(2) by (simp add: min_def split: if_splits)
    let ?evs = "Req ?req # map Yield (take (M - n0) ?xs)"
    have run: "page_loop exc_init (Suc fuel) srv self path qa retry is_limited limit (int c) (int n0) w =
        (Some (Inr ()), w\<lparr>heap := heap w @ [params ?req], trace := trace w @ ?evs\<rparr>)"
      unfolding step using False by (simp only: if_False nat_int)
    have y: "yielded ?evs = take (M - n0) (drop n0 ?all)" using le by (simp add: min_def)
    have d: "(M - n0 - 1) div p = 0" using le n0M by simp
    have r: "map (\<lambda>r. map_of (params r) CURRENT_PAGE_KEY) (requests ?evs) =
        map (\<lambda>i. Some (JNum (int i))) [c ..< Suc (c + (M - n0 - 1) div p)]"
      unfolding d by (simp add: update_conv')
    have s: "sleeps ?evs = []" by simp
    have b: "requests_below (int M) (int n0) ?evs" using n0M by simp
    from run y r s b show ?thesis by blast
  next
    case True
    then have lt: "p < M - n0" and len: "length ?xs = p"
      using M(2) by (simp_all add: min_def split: if_splits)
    let ?w3 = "w\<lparr>heap := heap w @ [params ?req], trace := trace w @ Req ?req # map Yield ?xs\<rparr>"
    have e1: "int c + 1 = int (Suc c)" by simp
    have e2: "int n0 + int (length ?xs) = int (n0 + p)" by (simp only: len of_nat_add)
    have run: "page_loop exc_init (Suc fuel) srv self path qa retry is_limited limit (int c) (int n0) w =
        page_loop exc_init fuel srv self path qa retry is_limited limit (int (Suc c)) (int (n0 + p)) ?w3"
      unfolding step e1 e2 using True by (simp only: if_True)
    have i1: "qa < length (heap ?w3)" using qa by simp
    have i2: "map_of (heap ?w3 ! qa) PAGE_SIZE_KEY = Some (JNum (int p))"
      using qa Suc.prems(2) by (simp add: nth_append)
    have i3: "heap ?w3 ! qa = q" using qa hq by (simp add: nth_append)
    have i4: "n0 + p = (Suc c - 1) * p" using cpos n0 by (cases c) simp_all
    have i5: "n0 + p < M" using lt by simp
    have i6: "M - (n0 + p) \<le> fuel" using Suc.prems(7) lt p by simp
    from Suc.IH [OF i1 i2 i3 _ i4 i5 i6] obtain hp evs where
      rec: "page_loop exc_init fuel srv self path qa retry is_limited limit (int (Suc c)) (int (n0 + p)) ?w3 =
        (Some (Inr ()), ?w3\<lparr>heap := heap ?w3 @ hp, trace := trace ?w3 @ evs\<rparr>)"
      and y': "yielded evs = take (M - (n0 + p)) (drop (n0 + p) ?all)"
      and r': "map (\<lambda>r. map_of (params r) CURRENT_PAGE_KEY) (requests evs) =
        map (\<lambda>i. Some (JNum (int i))) [Suc c ..< Suc (Suc c + (M - (n0 + p) - 1) div p)]"
      and s': "sleeps evs = []"
      and b': "requests_below (int M) (int (n0 + p)) evs"
      by auto
    let ?evs = "Req ?req # map Yield ?xs @ evs"
    have run': "page_loop exc_init (Suc fuel) srv self path qa retry is_limited limit (int c) (int n0) w =
        (Some (Inr ()), w\<lparr>heap := heap w @ (params ?req # hp), trace := trace w @ ?evs\<rparr>)"
      unfolding run rec by simp
    have "take (M - n0) (drop n0 ?all) =
        take p (drop n0 ?all) @ take (M - n0 - p) (drop p (drop n0 ?all))"
      using lt take_add [of p "M - n0 - p" "drop n0 ?all"] by simp
    then have y: "yielded ?evs = take (M - n0) (drop n0 ?all)"
      using y' by (simp add: yielded_append add.commute)
    have d: "(M - n0 - 1) div p = Suc ((M - (n0 + p) - 1) div p)"
    proof -
      define X where "X = M - (n0 + p) - 1"
      have "M - n0 - 1 = X + p" using lt by (simp add: X_def)
      moreover have "(X + p) div p = Suc (X div p)" using p by (simp add: div_add_self2)
      ultimately have "(M - n0 - 1) div p = Suc (X div p)" by (simp only:)
      then show ?thesis unfolding X_def .
    qed
    have r: "map (\<lambda>r. map_of (params r) CURRENT_PAGE_KEY) (requests ?evs) =
        map (\<lambda>i. Some (JNum (int i))) [c ..< Suc (c + (M - n0 - 1) div p)]"
      unfolding d using r' by (simp add: requests_append update_conv' upt_rec [of c])
    have s: "sleeps ?evs = []" using s' by (simp add: sleeps_append)
    have b: "requests_below (int M) (int n0) ?evs"
      using b' n0M len by (simp add: requests_below_append)
    from run' y r s b show ?thesis by blast
  qed
qed

lemma page_loop_empty:
  assumes "qa < length (heap w)" and "prefix ''/V1/'' path"
    and "req = \<lparr>http_method = ''get'', full_path = make_full_path self False path,
                params = AList.update CURRENT_PAGE_KEY (JNum cp) (heap w ! qa)\<rparr>"
    and "ok (srv (calls w) req)"
    and "json_body (srv (calls w) req) = Some (JObj kvs)"
    and "map_of kvs ''items'' = None \<or> map_of kvs ''items'' = Some (JArr [])"
  shows "page_loop exc_init (Suc fuel) srv self path qa retry lim limit cp count w =
     (Some (Inr ()), w\<lparr>heap := heap w @ [params req], trace := trace w @ [Req req]\<rparr>)"
  unfolding page_loop_request [where srv = srv and w = w and req = req, OF assms(1-4)]
  using assms(5,6) by (auto simp: response_json_def Let_def)

section \<open>Pagination against a server that honours the contract\<close>

lemma paging_server_honours:
  "honours_pagination (paging_server xs total_count) url (\<lambda>q. xs) (\<lambda>q. total_count)"
  by (auto simp: honours_pagination_def paging_server_def is_2xx_def)

lemma get_paginated_paging:
  fixes p M :: nat
  assumes H: "honours_pagination srv (make_full_path self False path) db total_of"
    and P: "prefix ''/V1/'' path"
    and l0: "limit \<noteq> 0"
    and ps: "0 < PAGE_SIZE self" "p = nat (effective_page_size self limit)"
    and ref: "case query of None \<Rightarrow> True | Some a \<Rightarrow> a < length (heap w)"
    and q: "q = (case query of None \<Rightarrow> [] | Some a \<Rightarrow> heap w ! a)"
    and T: "total_of (search_criteria q) \<le> length (db (search_criteria q))"
    and M: "M = stop_count (0 < limit) limit (total_of (search_criteria q))"
    and fuel: "M \<le> fuel"
  shows "\<exists>hp evs.
     get_paginated exc_init fuel srv self path query limit retry w =
       (Some (Inr ()), w\<lparr>heap := heap w @ hp, trace := trace w @ evs\<rparr>) \<and>
     yielded evs = take M (db (search_criteria q)) \<and>
     map (\<lambda>r. map_of (params r) CURRENT_PAGE_KEY) (requests evs) =
       map (\<lambda>i. Some (JNum (int i))) [1 ..< Suc (Suc ((M - 1) div p))] \<and>
     sleeps evs = [] \<and>
     requests_below (int M) 0 evs"
proof -
  let ?q1 = "AList.update PAGE_SIZE_KEY (JNum (effective_page_size self limit)) q"
  let ?w2 = "w\<lparr>heap := heap w @ [?q1]\<rparr>"
  let ?qa = "length (heap w)"
  let ?all = "db (search_criteria q)"
  have ppos: "0 < p" and pint: "int p = effective_page_size self limit"
    using ps by (simp_all add: effective_page_size_def)
  have M1: "1 \<le> M" by (simp add: M stop_count_def)
  have start: "get_paginated exc_init fuel srv self path query limit retry w =
      page_loop exc_init fuel srv self path ?qa retry (0 < limit) limit 1 0 ?w2"
    using l0 ref q
    by (cases query) (simp_all add: get_paginated_def dict_new_def dict_copy_def dict_set_def Let_def)
  have a1: "?qa < length (heap ?w2)" by simp
  have a2: "map_of (heap ?w2 ! ?qa) PAGE_SIZE_KEY = Some (JNum (int p))"
    by (simp add: update_conv' pint)
  have a3: "heap ?w2 ! ?qa = ?q1" by simp
  have sc: "search_criteria ?q1 = search_criteria q" by simp
  show ?thesis
  proof (cases "?all = []")
    case True
    from fuel M1 obtain f where f: "fuel = Suc f" by (cases fuel) simp_all
    let ?req = "\<lparr>http_method = ''get'', full_path = make_full_path self False path,
                  params = AList.update CURRENT_PAGE_KEY (JNum 1) (heap ?w2 ! ?qa)\<rparr>"
    have par: "map_of (params ?req) PAGE_SIZE_KEY = Some (JNum (int p))"
      "map_of (params ?req) CURRENT_PAGE_KEY = Some (JNum (int 1))"
      by (simp_all add: update_conv' pint)
    have sc': "search_criteria (params ?req) = search_criteria q" by simp
    from H [unfolded honours_pagination_def, rule_format, of ?req p 1 "calls ?w2"] par ppos
    obtain kvs where ok2: "is_2xx (srv (calls ?w2) ?req)"
      and body: "json_body (srv (calls ?w2) ?req) = Some (JObj kvs)"
      and items: "map_of kvs ''items'' = Some (JArr [])"
      unfolding sc' page_slice_def True by auto
    have ok: "ok (srv (calls ?w2) ?req)" using ok2 by (simp add: ok_iff is_2xx_def)
    from T True have "total_of (search_criteria q) = 0" by simp
    then have M: "M = 1" by (simp add: M stop_count_def)
    let ?evs = "[Req ?req]"
    have run: "get_paginated exc_init fuel srv self path query limit retry w =
        (Some (Inr ()), w\<lparr>heap := heap w @ [?q1, params ?req], trace := trace w @ ?evs\<rparr>)"
      unfolding start unfolding f
      using page_loop_empty [where srv = srv and w = ?w2 and req = ?req and fuel = f
          and retry = retry and lim = "0 < limit" and limit = limit and count = 0,
          OF a1 P refl ok body disjI2 [OF items]]
      by simp
    have y: "yielded ?evs = take M ?all" by (simp add: True)
    have r: "map (\<lambda>r. map_of (params r) CURRENT_PAGE_KEY) (requests ?evs) =
        map (\<lambda>i. Some (JNum (int i))) [1 ..< Suc (Suc ((M - 1) div p))]"
      by (simp add: M update_conv')
    have s: "sleeps ?evs = []" by simp
    have b: "requests_below (int M) 0 ?evs" by (simp add: M)
    from run y r s b show ?thesis by blast
  next
    case False
    then have "1 \<le> length ?all" by (cases ?all) simp_all
    then have Mlen: "M \<le> length ?all" using T by (auto simp: M stop_count_def)
    have c0: "0 = (1 - 1) * p" by simp
    from page_loop_paging [where w = ?w2 and c = 1 and ?n0.0 = 0 and retry = retry
        and fuel = fuel and exc_init = exc_init, OF H P _ ppos a1 a2 a3, unfolded sc, OF _ M Mlen _ c0]
      M1 fuel
    obtain hp evs where
      rec: "page_loop exc_init fuel srv self path ?qa retry (0 < limit) limit 1 0 ?w2 =
        (Some (Inr ()), ?w2\<lparr>heap := heap ?w2 @ hp, trace := trace ?w2 @ evs\<rparr>)"
      and y: "yielded evs = take M ?all"
      and r: "map (\<lambda>r. map_of (params r) CURRENT_PAGE_KEY) (requests evs) =
        map (\<lambda>i. Some (JNum (int i))) [1 ..< Suc (Suc ((M - 1) div p))]"
      and s: "sleeps evs = []"
      and b: "requests_below (int M) 0 evs"
      by auto
    have run: "get_paginated exc_init fuel srv self path query limit retry w =
        (Some (Inr ()), w\<lparr>heap := heap w @ (?q1 # hp), trace := trace w @ evs\<rparr>)"
      unfolding start rec by simp
    from run y r s b show ?thesis by blast
  qed
qed



lemma requests_below_mono: "requests_below k n es \<Longrightarrow> k \<le> k' \<Longrightarrow> requests_below k' n es"
  by (induction k n es rule: requests_below.induct) simp_all

lemma new_events_extend [simp]:
  "new_events w (w\<lparr>heap := h, trace := trace w @ evs\<rparr>) = evs"
  by (simp add: new_events_def)

lemma get_paginated_run:
  fixes M :: nat
  assumes H: "honours_pagination srv (make_full_path self False path) db total_of"
    and P: "prefix ''/V1/'' path"
    and l0: "limit \<noteq> 0"
    and ps: "0 < PAGE_SIZE self"
    and ref: "valid_ref w query"
    and T: "total_of (search_criteria (query_of w query)) \<le>
        length (db (search_criteria (query_of w query)))"
    and M: "M = stop_count (0 < limit) limit (total_of (search_criteria (query_of w query)))"
    and fuel: "M \<le> fuel"
  shows "\<exists>w'.
     get_paginated exc_init fuel srv self path query limit retry w = (Some (Inr ()), w') \<and>
     take (length (heap w)) (heap w') = heap w \<and>
     yielded (new_events w w') = take M (db (search_criteria (query_of w query))) \<and>
     length (requests (new_events w w')) =
       Suc ((M - 1) div nat (effective_page_size self limit)) \<and>
     sleeps (new_events w w') = [] \<and>
     requests_below (int M) 0 (new_events w w')"
proof -
  from get_paginated_paging [OF H P l0 ps refl ref [unfolded valid_ref_def]
      query_of_def [of w query] T M fuel, of exc_init retry]
  obtain hp evs where
    run: "get_paginated exc_init fuel srv self path query limit retry w =
       (Some (Inr ()), w\<lparr>heap := heap w @ hp, trace := trace w @ evs\<rparr>)"
    and y: "yielded evs = take M (db (search_criteria (query_of w query)))"
    and r: "map (\<lambda>r. map_of (params r) CURRENT_PAGE_KEY) (requests evs) =
       map (\<lambda>i. Some (JNum (int i)))
         [1 ..< Suc (Suc ((M - 1) div nat (effective_page_size self limit)))]"
    and s: "sleeps evs = []"
    and b: "requests_below (int M) 0 evs"
    by blast
  from r have "length (map (\<lambda>r. map_of (params r) CURRENT_PAGE_KEY) (requests evs)) =
      length (map (\<lambda>i. Some (JNum (int i)))
         [1 ..< Suc (Suc ((M - 1) div nat (effective_page_size self limit)))])"
    by (simp only:)
  then have n: "length (requests evs) = Suc ((M - 1) div nat (effective_page_size self limit))"
    by simp
  show ?thesis
    unfolding run using y n s b by simp
qed

text \<open>
  Claim C1. With a positive limit \<open>k\<close>, a positive page size, a path under \<^verbatim>\<open>/V1/\<close> and an honest
  server for the contract, the paginated fetch comes to its end (with at least \<open>k\<close> units of
  fuel), it yields the first \<open>k\<close> matching entities, that is \<open>min k total_count\<close> of them, and
  every page request is made while fewer than \<open>k\<close> items have been yielded.
\<close>

theorem get_paginated_limited:
  assumes "0 < limit"
    and "0 < PAGE_SIZE self"
    and "prefix ''/V1/'' path"
    and "valid_ref w query"
    and "honours_pagination srv (make_full_path self False path) db (\<lambda>q. length (db q))"
    and "nat limit \<le> fuel"
  shows "\<exists>w'.
     get_paginated exc_init fuel srv self path query limit retry w = (Some (Inr ()), w') \<and>
     yielded (new_events w w') = take (nat limit) (db (search_criteria (query_of w query))) \<and>
     int (length (yielded (new_events w w'))) =
       min limit (int (length (db (search_criteria (query_of w query))))) \<and>
     requests_below limit 0 (new_events w w')"
proof -
  let ?all = "db (search_criteria (query_of w query))"
  define M where "M = stop_count (0 < limit) limit (length ?all)"
  have Mk: "M \<le> nat limit" using assms(1) by (simp add: M_def stop_count_def)
  then have fuel: "M \<le> fuel" using assms(6) by simp
  from assms(1) have l0: "limit \<noteq> 0" by simp
  from get_paginated_run [OF assms(5,3) l0 assms(2,4) _ M_def fuel, of exc_init retry]
  obtain w' where run: "get_paginated exc_init fuel srv self path query limit retry w = (Some (Inr ()), w')"
    and y: "yielded (new_events w w') = take M ?all"
    and b: "requests_below (int M) 0 (new_events w w')"
    by auto
  have tk: "take M ?all = take (nat limit) ?all"
    using assms(1) by (cases "?all = []") (auto simp: M_def stop_count_def min_def max_def)
  have b': "requests_below limit 0 (new_events w w')"
    using requests_below_mono [OF b, of limit] Mk assms(1) by simp
  have len: "int (length (yielded (new_events w w'))) = min limit (int (length ?all))"
    unfolding y tk using assms(1) by (simp add: min_def) linarith
  from run y tk b' len show ?thesis by simp
qed

text \<open>Five entities in pages of two, limit three, and a query that the caller owns.\<close>

theorem get_paginated_limited_witness:
  "fst (get_paginated init_succeeds 3
     (paging_server [JStr ''item1'', JStr ''item2'', JStr ''item3'', JStr ''item4'', JStr ''item5''] 5)
     \<lparr>base_url = ''https://shop.test'', user_agent = ''ua'', read_only = False, PAGE_SIZE = 2,
      scope = ''all'', logger = False, authorization = ''Bearer secret''\<rparr>
     ''/V1/products/'' (Some 0) 3 0
     \<lparr>heap = [[(''searchCriteria[sortOrders][0][field]'', JStr ''sku'')]], trace = []\<rparr>) =
     Some (Inr ()) \<and>
   yielded (new_events
     \<lparr>heap = [[(''searchCriteria[sortOrders][0][field]'', JStr ''sku'')]], trace = []\<rparr>
     (snd (get_paginated init_succeeds 3
       (paging_server [JStr ''item1'', JStr ''item2'', JStr ''item3'', JStr ''item4'', JStr ''item5''] 5)
       \<lparr>base_url = ''https://shop.test'', user_agent = ''ua'', read_only = False, PAGE_SIZE = 2,
        scope = ''all'', logger = False, authorization = ''Bearer secret''\<rparr>
       ''/V1/products/'' (Some 0) 3 0
       \<lparr>heap = [[(''searchCriteria[sortOrders][0][field]'', JStr ''sku'')]], trace = []\<rparr>))) =
     [JStr ''item1'', JStr ''item2'', JStr ''item3'']"
proof -
  let ?self = "\<lparr>base_url = ''https://shop.test'', user_agent = ''ua'', read_only = False,
      PAGE_SIZE = 2, scope = ''all'', logger = False, authorization = ''Bearer secret''\<rparr>"
  let ?w = "\<lparr>heap = [[(''searchCriteria[sortOrders][0][field]'', JStr ''sku'')]], trace = []\<rparr>"
  let ?xs = "[JStr ''item1'', JStr ''item2'', JStr ''item3'', JStr ''item4'', JStr ''item5'']"
  have h: "honours_pagination (paging_server ?xs 5) (make_full_path ?self False ''/V1/products/'')
      (\<lambda>q. ?xs) (\<lambda>q. length ?xs)"
  proof -
    have "length ?xs = 5" by simp
    then show ?thesis by (simp only: paging_server_honours)
  qed
  have p1: "(0 :: int) < 3" and p2: "0 < PAGE_SIZE ?self"
    and p3: "prefix ''/V1/'' ''/V1/products/''" and p4: "valid_ref ?w (Some 0)"
    and p6: "nat 3 \<le> (3 :: nat)"
    by (simp_all add: valid_ref_def)
  from get_paginated_limited [where retry = 0 and exc_init = init_succeeds, OF p1 p2 p3 p4 h p6]
  obtain w' where a: "get_paginated init_succeeds 3 (paging_server ?xs 5) ?self ''/V1/products/'' (Some 0) 3 0 ?w =
        (Some (Inr ()), w')"
    and b0: "yielded (new_events ?w w') = take (nat 3) ?xs"
    by blast
  from b0 have b: "yielded (new_events ?w w') = [JStr ''item1'', JStr ''item2'', JStr ''item3'']"
    by (simp add: eval_nat_numeral)
  show ?thesis by (simp only: a fst_conv snd_conv b simp_thms)
qed






text \<open>
  Claim C3, as the code has it. With a negative limit and a server that reports
  \<open>total_count\<close> and holds at least that many entities, the paginated fetch comes to its end
  and yields the first \<open>max 1 total_count\<close> entities: exactly \<open>total_count\<close> of them when
  \<open>total_count\<close> is positive, and nothing when the server holds nothing. The count is compared
  with \<open>total_count\<close> after an item is yielded, so the first item of a page that is not empty is
  always yielded.
\<close>

theorem get_paginated_unlimited:
  assumes "limit < 0"
    and "0 < PAGE_SIZE self"
    and "prefix ''/V1/'' path"
    and "valid_ref w query"
    and "honours_pagination srv (make_full_path self False path) db total_of"
    and "total_of (search_criteria (query_of w query)) \<le>
         length (db (search_criteria (query_of w query)))"
    and "max 1 (total_of (search_criteria (query_of w query))) \<le> fuel"
  shows "\<exists>w'.
     get_paginated exc_init fuel srv self path query limit retry w = (Some (Inr ()), w') \<and>
     yielded (new_events w w') =
       take (max 1 (total_of (search_criteria (query_of w query))))
         (db (search_criteria (query_of w query))) \<and>
     (0 < total_of (search_criteria (query_of w query)) \<longrightarrow>
        yielded (new_events w w') =
          take (total_of (search_criteria (query_of w query)))
            (db (search_criteria (query_of w query))) \<and>
        length (yielded (new_events w w')) = total_of (search_criteria (query_of w query))) \<and>
     length (requests (new_events w w')) =
       Suc ((max 1 (total_of (search_criteria (query_of w query))) - 1) div nat (PAGE_SIZE self))"
proof -
  let ?all = "db (search_criteria (query_of w query))"
  let ?T = "total_of (search_criteria (query_of w query))"
  have M: "max 1 ?T = stop_count (0 < limit) limit ?T"
    using assms(1) by (simp add: stop_count_def)
  from assms(1) have l0: "limit \<noteq> 0" by simp
  have p: "effective_page_size self limit = PAGE_SIZE self"
    using assms(1) by (simp add: effective_page_size_def)
  from get_paginated_run [OF assms(5,3) l0 assms(2,4,6) M assms(7), of exc_init retry]
  obtain w' where run: "get_paginated exc_init fuel srv self path query limit retry w = (Some (Inr ()), w')"
    and y: "yielded (new_events w w') = take (max 1 ?T) ?all"
    and n0: "length (requests (new_events w w')) =
       Suc ((max 1 ?T - 1) div nat (effective_page_size self limit))"
    by blast
  have n: "length (requests (new_events w w')) = Suc ((max 1 ?T - 1) div nat (PAGE_SIZE self))"
    using n0 by (simp only: p)
  have pos: "0 < ?T \<longrightarrow>
      yielded (new_events w w') = take ?T ?all \<and> length (yielded (new_events w w')) = ?T"
    unfolding y using assms(6) by (simp add: max_def)
  from run y pos n show ?thesis
    by (intro exI [of _ w'] conjI) assumption+
qed

text \<open>The example of the specification: three entities in pages of two, no limit; two page
  requests and the three items.\<close>

theorem get_paginated_unlimited_witness:
  "get_paginated init_succeeds 3 (paging_server [JStr ''item1'', JStr ''item2'', JStr ''item3''] 3)
     \<lparr>base_url = ''https://shop.test'', user_agent = ''ua'', read_only = False, PAGE_SIZE = 2,
      scope = ''all'', logger = False, authorization = ''Bearer secret''\<rparr>
     ''/V1/products/'' None (- 1) 0 \<lparr>heap = [], trace = []\<rparr> =
   (Some (Inr ()),
    \<lparr>heap = [[(''searchCriteria[pageSize]'', JNum 2)],
             [(''searchCriteria[pageSize]'', JNum 2), (''searchCriteria[currentPage]'', JNum 1)],
             [(''searchCriteria[pageSize]'', JNum 2), (''searchCriteria[currentPage]'', JNum 2)]],
     trace = [Req \<lparr>http_method = ''get'', full_path = ''/rest/all/V1/products/'',
                   params = [(''searchCriteria[pageSize]'', JNum 2),
                             (''searchCriteria[currentPage]'', JNum 1)]\<rparr>,
              Yield (JStr ''item1''), Yield (JStr ''item2''),
              Req \<lparr>http_method = ''get'', full_path = ''/rest/all/V1/products/'',
                   params = [(''searchCriteria[pageSize]'', JNum 2),
                             (''searchCriteria[currentPage]'', JNum 2)]\<rparr>,
              Yield (JStr ''item3'')]\<rparr>) \<and>
   yielded (new_events \<lparr>heap = [], trace = []\<rparr>
     (snd (get_paginated init_succeeds 3 (paging_server [JStr ''item1'', JStr ''item2'', JStr ''item3''] 3)
       \<lparr>base_url = ''https://shop.test'', user_agent = ''ua'', read_only = False, PAGE_SIZE = 2,
        scope = ''all'', logger = False, authorization = ''Bearer secret''\<rparr>
       ''/V1/products/'' None (- 1) 0 \<lparr>heap = [], trace = []\<rparr>))) =
   [JStr ''item1'', JStr ''item2'', JStr ''item3'']"
proof -
  let ?self = "\<lparr>base_url = ''https://shop.test'', user_agent = ''ua'', read_only = False,
      PAGE_SIZE = 2, scope = ''all'', logger = False, authorization = ''Bearer secret''\<rparr>"
  let ?w = "\<lparr>heap = [], trace = []\<rparr>"
  let ?xs = "[JStr ''item1'', JStr ''item2'', JStr ''item3'']"
  have h: "honours_pagination (paging_server ?xs 3) (make_full_path ?self False ''/V1/products/'')
      (\<lambda>q. ?xs) (\<lambda>q. 3)"
    by (rule paging_server_honours)
  have p1: "(- 1 :: int) < 0" and p2: "0 < PAGE_SIZE ?self"
    and p3: "prefix ''/V1/'' ''/V1/products/''" and p4: "valid_ref ?w None"
    and p6: "(3 :: nat) \<le> length ?xs" and p7: "max 1 (3 :: nat) \<le> 3"
    by (simp_all add: valid_ref_def)
  from get_paginated_unlimited [where retry = 0 and exc_init = init_succeeds, OF p1 p2 p3 p4 h p6 p7]
  obtain w' where a: "get_paginated init_succeeds 3 (paging_server ?xs 3) ?self ''/V1/products/'' None
        (- 1) 0 ?w = (Some (Inr ()), w')"
    and b0: "yielded (new_events ?w w') = take (max 1 3) ?xs"
    by blast
  from b0 have b: "yielded (new_events ?w w') = ?xs" by simp
  have y: "yielded (new_events ?w (snd (get_paginated init_succeeds 3 (paging_server ?xs 3) ?self
      ''/V1/products/'' None (- 1) 0 ?w))) = ?xs"
    by (simp only: a snd_conv b)
  have r: "get_paginated init_succeeds 3 (paging_server ?xs 3) ?self ''/V1/products/'' None (- 1) 0 ?w =
   (Some (Inr ()),
    \<lparr>heap = [[(''searchCriteria[pageSize]'', JNum 2)],
             [(''searchCriteria[pageSize]'', JNum 2), (''searchCriteria[currentPage]'', JNum 1)],
             [(''searchCriteria[pageSize]'', JNum 2), (''searchCriteria[currentPage]'', JNum 2)]],
     trace = [Req \<lparr>http_method = ''get'', full_path = ''/rest/all/V1/products/'',
                   params = [(''searchCriteria[pageSize]'', JNum 2),
                             (''searchCriteria[currentPage]'', JNum 1)]\<rparr>,
              Yield (JStr ''item1''), Yield (JStr ''item2''),
              Req \<lparr>http_method = ''get'', full_path = ''/rest/all/V1/products/'',
                   params = [(''searchCriteria[pageSize]'', JNum 2),
                             (''searchCriteria[currentPage]'', JNum 2)]\<rparr>,
              Yield (JStr ''item3'')]\<rparr>)"
    by code_simp
  from r y show ?thesis by (rule conjI)
qed

text \<open>Claim C3 as stated fails when the server reports \<open>total_count = 0\<close> with a page that is
  not empty: one item is yielded, one more than \<open>total_count\<close>.\<close>

theorem get_paginated_unlimited_counterexample:
  "get_paginated init_succeeds 1 (paging_server [JStr ''item1''] 0)
     \<lparr>base_url = ''https://shop.test'', user_agent = ''ua'', read_only = False, PAGE_SIZE = 1000,
      scope = ''all'', logger = False, authorization = ''Bearer secret''\<rparr>
     ''/V1/products/'' None (- 1) 0 \<lparr>heap = [], trace = []\<rparr> =
   (Some (Inr ()),
    \<lparr>heap = [[(''searchCriteria[pageSize]'', JNum 1000)],
             [(''searchCriteria[pageSize]'', JNum 1000), (''searchCriteria[currentPage]'', JNum 1)]],
     trace = [Req \<lparr>http_method = ''get'', full_path = ''/rest/all/V1/products/'',
                   params = [(''searchCriteria[pageSize]'', JNum 1000),
                             (''searchCriteria[currentPage]'', JNum 1)]\<rparr>,
              Yield (JStr ''item1'')]\<rparr>) \<and>
   json_body (paging_server [JStr ''item1''] 0 0
     \<lparr>http_method = ''get'', full_path = ''/rest/all/V1/products/'',
      params = [(''searchCriteria[pageSize]'', JNum 1000),
                (''searchCriteria[currentPage]'', JNum 1)]\<rparr>) =
   Some (JObj [(''items'', JArr [JStr ''item1'']), (''total_count'', JNum 0)])"
proof (rule conjI)
  show "get_paginated init_succeeds 1 (paging_server [JStr ''item1''] 0)
     \<lparr>base_url = ''https://shop.test'', user_agent = ''ua'', read_only = False, PAGE_SIZE = 1000,
      scope = ''all'', logger = False, authorization = ''Bearer secret''\<rparr>
     ''/V1/products/'' None (- 1) 0 \<lparr>heap = [], trace = []\<rparr> =
   (Some (Inr ()),
    \<lparr>heap = [[(''searchCriteria[pageSize]'', JNum 1000)],
             [(''searchCriteria[pageSize]'', JNum 1000), (''searchCriteria[currentPage]'', JNum 1)]],
     trace = [Req \<lparr>http_method = ''get'', full_path = ''/rest/all/V1/products/'',
                   params = [(''searchCriteria[pageSize]'', JNum 1000),
                             (''searchCriteria[currentPage]'', JNum 1)]\<rparr>,
              Yield (JStr ''item1'')]\<rparr>)"
    by code_simp
  show "json_body (paging_server [JStr ''item1''] 0 0
     \<lparr>http_method = ''get'', full_path = ''/rest/all/V1/products/'',
      params = [(''searchCriteria[pageSize]'', JNum 1000),
                (''searchCriteria[currentPage]'', JNum 1)]\<rparr>) =
   Some (JObj [(''items'', JArr [JStr ''item1'']), (''total_count'', JNum 0)])"
    by (simp add: paging_server_def PAGE_SIZE_KEY_def CURRENT_PAGE_KEY_def page_slice_def)
qed

section \<open>Missing keys in a page\<close>

text \<open>
  Claim C10. For a page response that is \<^verbatim>\<open>ok\<close> and whose body is a JSON object: when the
  \<^verbatim>\<open>items\<close> key is missing, the loop ends the sequence exactly as it does for an empty \<^verbatim>\<open>items\<close>
  array: nothing more is yielded, the world is the same, and \<^verbatim>\<open>total_count\<close> is not looked at
  (nothing is assumed about it). When \<^verbatim>\<open>items\<close> is a non-empty array and \<^verbatim>\<open>total_count\<close> is
  missing, the generator raises \<^verbatim>\<open>KeyError\<close> before it yields an item of that page.
\<close>

theorem page_loop_missing_keys:
  assumes "qa < length (heap w)" and "prefix ''/V1/'' path"
    and "req = \<lparr>http_method = ''get'', full_path = make_full_path self False path,
                params = AList.update CURRENT_PAGE_KEY (JNum cp) (heap w ! qa)\<rparr>"
    and "ok (srv (calls w) req)"
    and "json_body (srv (calls w) req) = Some (JObj kvs)"
  shows
    "(map_of kvs ''items'' = None \<or> map_of kvs ''items'' = Some (JArr []) \<longrightarrow>
        page_loop exc_init (Suc fuel) srv self path qa retry lim limit cp count w =
          (Some (Inr ()), w\<lparr>heap := heap w @ [params req], trace := trace w @ [Req req]\<rparr>)) \<and>
     (map_of kvs ''items'' = Some (JArr (x # xs)) \<and> map_of kvs ''total_count'' = None \<longrightarrow>
        page_loop exc_init (Suc fuel) srv self path qa retry lim limit cp count w =
          (Some (Inl (KeyError ''total_count'')),
           w\<lparr>heap := heap w @ [params req], trace := trace w @ [Req req]\<rparr>))"
proof (intro conjI impI)
  assume "map_of kvs ''items'' = None \<or> map_of kvs ''items'' = Some (JArr [])"
  from page_loop_empty [where srv = srv and w = w and req = req, OF assms(1-5) this]
  show "page_loop exc_init (Suc fuel) srv self path qa retry lim limit cp count w =
          (Some (Inr ()), w\<lparr>heap := heap w @ [params req], trace := trace w @ [Req req]\<rparr>)" .
next
  assume a: "map_of kvs ''items'' = Some (JArr (x # xs)) \<and> map_of kvs ''total_count'' = None"
  show "page_loop exc_init (Suc fuel) srv self path qa retry lim limit cp count w =
          (Some (Inl (KeyError ''total_count'')),
           w\<lparr>heap := heap w @ [params req], trace := trace w @ [Req req]\<rparr>)"
    unfolding page_loop_request [where srv = srv and w = w and req = req, OF assms(1-4)]
    using assms(5) a by (simp add: response_json_def Let_def)
qed

text \<open>A body with \<^verbatim>\<open>total_count\<close> and no \<^verbatim>\<open>items\<close>, and a body with one item and no
  \<^verbatim>\<open>total_count\<close>.\<close>

theorem page_loop_missing_keys_witness:
  \<open>page_loop init_succeeds (Suc 0)
     (\<lambda>n req. \<lparr>status_code = 200, text' = ''{"total_count": 7}'',
                json_body = Some (JObj [(''total_count'', JNum 7)])\<rparr>)
     \<lparr>base_url = ''https://shop.test'', user_agent = ''ua'', read_only = False, PAGE_SIZE = 1000,
      scope = ''all'', logger = False, authorization = ''Bearer secret''\<rparr>
     ''/V1/products/'' 0 0 False (- 1) 1 0
     \<lparr>heap = [[(''searchCriteria[pageSize]'', JNum 1000)]], trace = []\<rparr> =
   (Some (Inr ()),
    \<lparr>heap = [[(''searchCriteria[pageSize]'', JNum 1000)],
             [(''searchCriteria[pageSize]'', JNum 1000), (''searchCriteria[currentPage]'', JNum 1)]],
     trace = [Req \<lparr>http_method = ''get'', full_path = ''/rest/all/V1/products/'',
                   params = [(''searchCriteria[pageSize]'', JNum 1000),
                             (''searchCriteria[currentPage]'', JNum 1)]\<rparr>]\<rparr>) \<and>
   page_loop init_succeeds (Suc 0)
     (\<lambda>n req. \<lparr>status_code = 200, text' = ''{"items": [1]}'',
                json_body = Some (JObj [(''items'', JArr [JNum 1])])\<rparr>)
     \<lparr>base_url = ''https://shop.test'', user_agent = ''ua'', read_only = False, PAGE_SIZE = 1000,
      scope = ''all'', logger = False, authorization = ''Bearer secret''\<rparr>
     ''/V1/products/'' 0 0 False (- 1) 1 0
     \<lparr>heap = [[(''searchCriteria[pageSize]'', JNum 1000)]], trace = []\<rparr> =
   (Some (Inl (KeyError ''total_count'')),
    \<lparr>heap = [[(''searchCriteria[pageSize]'', JNum 1000)],
             [(''searchCriteria[pageSize]'', JNum 1000), (''searchCriteria[currentPage]'', JNum 1)]],
     trace = [Req \<lparr>http_method = ''get'', full_path = ''/rest/all/V1/products/'',
                   params = [(''searchCriteria[pageSize]'', JNum 1000),
                             (''searchCriteria[currentPage]'', JNum 1)]\<rparr>]\<rparr>)\<close>
proof (rule conjI)
  let ?self = \<open>\<lparr>base_url = ''https://shop.test'', user_agent = ''ua'', read_only = False,
      PAGE_SIZE = 1000, scope = ''all'', logger = False, authorization = ''Bearer secret''\<rparr>\<close>
  let ?w = \<open>\<lparr>heap = [[(''searchCriteria[pageSize]'', JNum 1000)]], trace = []\<rparr>\<close>
  let ?req = \<open>\<lparr>http_method = ''get'', full_path = make_full_path ?self False ''/V1/products/'',
      params = AList.update CURRENT_PAGE_KEY (JNum 1) (heap ?w ! 0)\<rparr>\<close>
  let ?A = \<open>\<lambda>(n :: nat) (req :: request).
      \<lparr>status_code = 200, text' = ''{"total_count": 7}'',
       json_body = Some (JObj [(''total_count'', JNum 7)])\<rparr>\<close>
  let ?B = \<open>\<lambda>(n :: nat) (req :: request).
      \<lparr>status_code = 200, text' = ''{"items": [1]}'',
       json_body = Some (JObj [(''items'', JArr [JNum 1])])\<rparr>\<close>
  have p1: \<open>0 < length (heap ?w)\<close> and p2: \<open>prefix ''/V1/'' ''/V1/products/''\<close>
    and okA: \<open>ok (?A (calls ?w) ?req)\<close> and okB: \<open>ok (?B (calls ?w) ?req)\<close>
    and bA: \<open>json_body (?A (calls ?w) ?req) = Some (JObj [(''total_count'', JNum 7)])\<close>
    and bB: \<open>json_body (?B (calls ?w) ?req) = Some (JObj [(''items'', JArr [JNum 1])])\<close>
    by (simp_all add: ok_iff)
  from page_loop_missing_keys [where exc_init = init_succeeds and srv = ?A and w = ?w and req = ?req and fuel = 0
      and retry = 0 and lim = False and limit = \<open>- 1\<close> and count = 0, OF p1 p2 refl okA bA]
  show \<open>page_loop init_succeeds (Suc 0) ?A ?self ''/V1/products/'' 0 0 False (- 1) 1 0 ?w =
   (Some (Inr ()),
    \<lparr>heap = [[(''searchCriteria[pageSize]'', JNum 1000)],
             [(''searchCriteria[pageSize]'', JNum 1000), (''searchCriteria[currentPage]'', JNum 1)]],
     trace = [Req \<lparr>http_method = ''get'', full_path = ''/rest/all/V1/products/'',
                   params = [(''searchCriteria[pageSize]'', JNum 1000),
                             (''searchCriteria[currentPage]'', JNum 1)]\<rparr>]\<rparr>)\<close>
    by (simp add: make_full_path_def CURRENT_PAGE_KEY_def)
  from page_loop_missing_keys [where exc_init = init_succeeds and srv = ?B and w = ?w and req = ?req and fuel = 0
      and retry = 0 and lim = False and limit = \<open>- 1\<close> and count = 0 and x = \<open>JNum 1\<close>
      and xs = \<open>[]\<close>, OF p1 p2 refl okB bB]
  show \<open>page_loop init_succeeds (Suc 0) ?B ?self ''/V1/products/'' 0 0 False (- 1) 1 0 ?w =
   (Some (Inl (KeyError ''total_count'')),
    \<lparr>heap = [[(''searchCriteria[pageSize]'', JNum 1000)],
             [(''searchCriteria[pageSize]'', JNum 1000), (''searchCriteria[currentPage]'', JNum 1)]],
     trace = [Req \<lparr>http_method = ''get'', full_path = ''/rest/all/V1/products/'',
                   params = [(''searchCriteria[pageSize]'', JNum 1000),
                             (''searchCriteria[currentPage]'', JNum 1)]\<rparr>]\<rparr>)\<close>
    by (simp add: make_full_path_def CURRENT_PAGE_KEY_def)
qed

section \<open>Exactly one product\<close>

text \<open>
  Claim C9. With \<^verbatim>\<open>expect_one\<close> set, an honest server, a positive page size and two units of
  fuel, \<^verbatim>\<open>get_product_by_query\<close> returns \<^verbatim>\<open>None\<close> when no entity matches the query, the entity
  when exactly one matches, and raises \<^verbatim>\<open>MagentoAssertionError\<close> when two or more match.
\<close>

theorem get_product_by_query_expect_one:
  assumes "0 < PAGE_SIZE self"
    and "query < length (heap w)"
    and "honours_pagination srv (make_full_path self False ''/V1/products/'') db
           (\<lambda>q. length (db q))"
    and "2 \<le> fuel"
  shows
    "(db (search_criteria (heap w ! query)) = [] \<longrightarrow>
        fst (get_product_by_query exc_init fuel srv self query True w) = Some (Inr None)) \<and>
     (\<forall>product. db (search_criteria (heap w ! query)) = [product] \<longrightarrow>
        fst (get_product_by_query exc_init fuel srv self query True w) = Some (Inr (Some product))) \<and>
     (2 \<le> length (db (search_criteria (heap w ! query))) \<longrightarrow>
        fst (get_product_by_query exc_init fuel srv self query True w) = Some (Inl MagentoAssertionError))"
proof -
  let ?all = "db (search_criteria (heap w ! query))"
  define M where "M = stop_count (0 < (2 :: int)) 2 (length ?all)"
  have q: "query_of w (Some query) = heap w ! query" by (simp add: query_of_def)
  have M2: "M \<le> fuel" using assms(4) by (simp add: M_def stop_count_def)
  have vr: "valid_ref w (Some query)" using assms(2) by (simp add: valid_ref_def)
  have P: "prefix ''/V1/'' ''/V1/products/''" by simp
  have l0: "(2 :: int) \<noteq> 0" by simp
  from get_paginated_run [where retry = 0 and limit = 2 and total_of = "\<lambda>q. length (db q)",
      OF assms(3) P l0 assms(1) vr, unfolded q, OF _ M_def M2]
  obtain w' where run: "get_paginated exc_init fuel srv self ''/V1/products/'' (Some query) 2 0 w =
      (Some (Inr ()), w')"
    and y: "yielded (new_events w w') = take M ?all"
    by auto
  have res: "fst (get_product_by_query exc_init fuel srv self query True w) =
      (case take M ?all of
         [] \<Rightarrow> Some (Inr None)
       | [product] \<Rightarrow> Some (Inr (Some product))
       | _ \<Rightarrow> Some (Inl MagentoAssertionError))"
    by (simp add: get_product_by_query_def get_products_def run y split: list.splits)
  have a: "fst (get_product_by_query exc_init fuel srv self query True w) = Some (Inr None)"
    if "?all = []"
    unfolding res using that by simp
  have b: "fst (get_product_by_query exc_init fuel srv self query True w) = Some (Inr (Some product))"
    if "?all = [product]" for product
    unfolding res using that by (simp add: M_def stop_count_def)
  have c: "fst (get_product_by_query exc_init fuel srv self query True w) = Some (Inl MagentoAssertionError)"
    if "2 \<le> length ?all"
  proof -
    from that have M: "M = 2" by (simp add: M_def stop_count_def)
    from that obtain u v rest where "?all = u # v # rest"
      by (cases ?all; cases "tl ?all") auto
    then show ?thesis unfolding res M by (simp add: numeral_2_eq_2)
  qed
  from a b c show ?thesis by blast
qed

text \<open>No product, one product, three products.\<close>

theorem get_product_by_query_expect_one_witness:
  "fst (get_product_by_query init_succeeds 2 (paging_server [] 0)
     \<lparr>base_url = ''https://shop.test'', user_agent = ''ua'', read_only = False, PAGE_SIZE = 1000,
      scope = ''all'', logger = False, authorization = ''Bearer secret''\<rparr>
     0 True \<lparr>heap = [[]], trace = []\<rparr>) = Some (Inr None) \<and>
   fst (get_product_by_query init_succeeds 2 (paging_server [JStr ''p1''] 1)
     \<lparr>base_url = ''https://shop.test'', user_agent = ''ua'', read_only = False, PAGE_SIZE = 1000,
      scope = ''all'', logger = False, authorization = ''Bearer secret''\<rparr>
     0 True \<lparr>heap = [[]], trace = []\<rparr>) = Some (Inr (Some (JStr ''p1''))) \<and>
   fst (get_product_by_query init_succeeds 2 (paging_server [JStr ''p1'', JStr ''p2'', JStr ''p3''] 3)
     \<lparr>base_url = ''https://shop.test'', user_agent = ''ua'', read_only = False, PAGE_SIZE = 1000,
      scope = ''all'', logger = False, authorization = ''Bearer secret''\<rparr>
     0 True \<lparr>heap = [[]], trace = []\<rparr>) = Some (Inl MagentoAssertionError)"
proof -
  let ?self = "\<lparr>base_url = ''https://shop.test'', user_agent = ''ua'', read_only = False,
      PAGE_SIZE = 1000, scope = ''all'', logger = False, authorization = ''Bearer secret''\<rparr>"
  let ?w = "\<lparr>heap = [[]], trace = []\<rparr>"
  let ?url = "make_full_path ?self False ''/V1/products/''"
  have p1: "0 < PAGE_SIZE ?self" and p2: "0 < length (heap ?w)" and p4: "(2 :: nat) \<le> 2"
    by simp_all
  have h0: "honours_pagination (paging_server [] 0) ?url (\<lambda>q. []) (\<lambda>q. length ([] :: json list))"
    by (simp only: list.size paging_server_honours)
  have h1: "honours_pagination (paging_server [JStr ''p1''] 1) ?url (\<lambda>q. [JStr ''p1''])
      (\<lambda>q. length [JStr ''p1''])"
  proof -
    have "length [JStr ''p1''] = 1" by simp
    then show ?thesis by (simp only: paging_server_honours)
  qed
  have h3: "honours_pagination (paging_server [JStr ''p1'', JStr ''p2'', JStr ''p3''] 3) ?url
      (\<lambda>q. [JStr ''p1'', JStr ''p2'', JStr ''p3''])
      (\<lambda>q. length [JStr ''p1'', JStr ''p2'', JStr ''p3''])"
  proof -
    have "length [JStr ''p1'', JStr ''p2'', JStr ''p3''] = 3" by simp
    then show ?thesis by (simp only: paging_server_honours)
  qed
  have a: "fst (get_product_by_query init_succeeds 2 (paging_server [] 0) ?self 0 True ?w) = Some (Inr None)"
    using get_product_by_query_expect_one [where exc_init = init_succeeds, OF p1 p2 h0 p4] by simp
  have b: "fst (get_product_by_query init_succeeds 2 (paging_server [JStr ''p1''] 1) ?self 0 True ?w) =
      Some (Inr (Some (JStr ''p1'')))"
    using get_product_by_query_expect_one [where exc_init = init_succeeds, OF p1 p2 h1 p4] by simp
  have c: "fst (get_product_by_query init_succeeds 2 (paging_server [JStr ''p1'', JStr ''p2'', JStr ''p3''] 3)
      ?self 0 True ?w) = Some (Inl MagentoAssertionError)"
    using get_product_by_query_expect_one [where exc_init = init_succeeds, OF p1 p2 h3 p4] by simp
  from a b c show ?thesis by (intro conjI)
qed

section \<open>The caller's query\<close>

lemma retry_events:
  "requests (concat (replicate j [Sleep 10, Req req])) = replicate j req"
  "yielded (concat (replicate j [Sleep 10, Req req])) = []"
  by (induction j) simp_all

lemma request_api_frame:
  assumes "request_api exc_init srv self m path ps async_bulk throw retry w = (res, w')"
  shows "\<exists>evs. w' = w\<lparr>trace := trace w @ evs\<rparr> \<and> yielded evs = [] \<and>
           (\<forall>r \<in> set (requests evs). params r = ps)"
proof (cases "prefix ''/V1/'' path \<and>
    \<not> (read_only self \<and> \<not> is_read_method m)")
  case False
  let ?req = "\<lparr>http_method = m, full_path = make_full_path self async_bulk path, params = ps\<rparr>"
  have "request_api exc_init srv self m path ps async_bulk throw retry w = (Inl AssertionError, w)"
  proof (cases "prefix ''/V1/'' path")
    case False
    then show ?thesis by (simp add: request_api_def)
  next
    case True
    with \<open>\<not> (prefix ''/V1/'' path \<and> \<not> (read_only self \<and> \<not> is_read_method m))\<close>
    have "read_only self \<and> \<not> is_read_method (http_method ?req)" by simp
    from http_call_blocked [OF this] True show ?thesis
      by (simp add: request_api_def Let_def)
  qed
  with assms have "w' = w\<lparr>trace := trace w @ []\<rparr>" by simp
  then show ?thesis by (intro exI [of _ "[]"]) simp
next
  case True
  let ?req = "\<lparr>http_method = m, full_path = make_full_path self async_bulk path, params = ps\<rparr>"
  let ?j = "retries_used (\<lambda>i. srv i ?req) (calls w) (nat retry)"
  let ?evs = "Req ?req # concat (replicate ?j [Sleep 10, Req ?req])"
  have o: "\<not> (read_only self \<and> \<not> is_read_method (http_method ?req))"
    using True by simp
  have c0: "calls (emit (Req ?req) w) = Suc (calls w)" by simp
  note loop = retry_loop_spec [OF o c0, where srv = srv and retry = retry]
  from assms True have "w' = (emit (Req ?req) w)\<lparr>trace := trace (emit (Req ?req) w) @
      concat (replicate ?j [Sleep 10, Req ?req])\<rparr>"
    by (auto simp: request_api_def http_call_open [OF o] loop Let_def split: if_splits sum.splits)
  then have "w' = w\<lparr>trace := trace w @ ?evs\<rparr>" by (simp add: emit_def)
  moreover have "yielded ?evs = []" by (simp add: retry_events)
  moreover have "\<forall>r \<in> set (requests ?evs). params r = ps" by (simp add: retry_events)
  ultimately show ?thesis by blast
qed

lemma get_api_frame:
  assumes "get_api exc_init srv self path a throw retry w = (res, w')"
  shows "\<exists>evs. w' = w\<lparr>trace := trace w @ evs\<rparr> \<and> yielded evs = [] \<and>
           (\<forall>r \<in> set (requests evs). params r = heap w ! a)"
  using request_api_frame [OF assms [unfolded get_api_def]] .

lemma yield_items_frame:
  "yield_items xs tc lim limit count w = (fl, c', w') \<Longrightarrow>
   \<exists>ys. w' = w\<lparr>trace := trace w @ map Yield ys\<rparr>"
proof (induction xs arbitrary: count w)
  case Nil
  then have "w' = w\<lparr>trace := trace w @ map Yield []\<rparr>" by simp
  then show ?case by blast
next
  case (Cons x xs)
  let ?w1 = "emit (Yield x) w"
  have stop: "w' = w\<lparr>trace := trace w @ map Yield [x]\<rparr>" if "w' = ?w1"
    using that by (simp add: emit_def)
  show ?case
  proof (cases "w' = ?w1")
    case True
    from stop [OF this] show ?thesis by blast
  next
    case False
    with Cons.prems have "yield_items xs tc lim limit (count + 1) ?w1 = (fl, c', w')"
      by (simp add: Let_def split: sum.splits bool.splits if_splits)
    from Cons.IH [OF this] obtain ys where "w' = ?w1\<lparr>trace := trace ?w1 @ map Yield ys\<rparr>" ..
    then have "w' = w\<lparr>trace := trace w @ map Yield (x # ys)\<rparr>" by (simp add: emit_def)
    then show ?thesis by blast
  qed
qed


lemma page_loop_iteration:
  assumes qa: "qa < length (heap w)"
    and run: "page_loop exc_init (Suc fuel) srv self path qa retry lim limit cp count w = (out, w')"
  shows "\<exists>evs ys c'.
     (\<forall>r \<in> set (requests evs). params r = AList.update CURRENT_PAGE_KEY (JNum cp) (heap w ! qa)) \<and>
     yielded evs = [] \<and>
     (w' = w\<lparr>heap := heap w @ [AList.update CURRENT_PAGE_KEY (JNum cp) (heap w ! qa)],
              trace := trace w @ evs @ map Yield ys\<rparr> \<or>
      page_loop exc_init fuel srv self path qa retry lim limit (cp + 1) c'
        (w\<lparr>heap := heap w @ [AList.update CURRENT_PAGE_KEY (JNum cp) (heap w ! qa)],
           trace := trace w @ evs @ map Yield ys\<rparr>) = (out, w'))"
proof -
  let ?pq = "AList.update CURRENT_PAGE_KEY (JNum cp) (heap w ! qa)"
  let ?w2 = "w\<lparr>heap := heap w @ [?pq]\<rparr>"
  have w2: "dict_copy qa w = (length (heap w), w\<lparr>heap := heap w @ [heap w ! qa]\<rparr>)"
    "dict_set (length (heap w)) CURRENT_PAGE_KEY (JNum cp) (w\<lparr>heap := heap w @ [heap w ! qa]\<rparr>) = ?w2"
    using page_query_world [OF qa] by simp_all
  obtain res w3 where ga: "get_api exc_init srv self path (length (heap w)) True retry ?w2 = (res, w3)"
    by (cases "get_api exc_init srv self path (length (heap w)) True retry ?w2") blast
  from get_api_frame [OF ga] obtain evs where
    w3: "w3 = ?w2\<lparr>trace := trace ?w2 @ evs\<rparr>" and y: "yielded evs = []"
    and r: "\<forall>r \<in> set (requests evs). params r = ?pq"
    by auto
  have rest: "w' = w3 \<or>
     (\<exists>xs tc fl c' w4. yield_items xs tc lim limit count w3 = (fl, c', w4) \<and>
        (w' = w4 \<or> page_loop exc_init fuel srv self path qa retry lim limit (cp + 1) c' w4 = (out, w')))"
    using run unfolding page_loop.simps w2 split ga Let_def
    by (auto split: sum.splits json.splits option.splits if_splits prod.splits flow.splits)
      blast+
  then show ?thesis
  proof
    assume "w' = w3"
    then have "w' = w\<lparr>heap := heap w @ [?pq], trace := trace w @ evs @ map Yield []\<rparr>"
      by (simp add: w3)
    with r y show ?thesis by blast
  next
    assume "\<exists>xs tc fl c' w4. yield_items xs tc lim limit count w3 = (fl, c', w4) \<and>
        (w' = w4 \<or> page_loop exc_init fuel srv self path qa retry lim limit (cp + 1) c' w4 = (out, w'))"
    then obtain xs tc fl c' w4 where yi: "yield_items xs tc lim limit count w3 = (fl, c', w4)"
      and alt: "w' = w4 \<or> page_loop exc_init fuel srv self path qa retry lim limit (cp + 1) c' w4 = (out, w')"
      by blast
    from yield_items_frame [OF yi] obtain ys where "w4 = w3\<lparr>trace := trace w3 @ map Yield ys\<rparr>" ..
    then have w4: "w4 = w\<lparr>heap := heap w @ [?pq], trace := trace w @ evs @ map Yield ys\<rparr>"
      by (simp add: w3)
    from alt r y show ?thesis unfolding w4 by blast
  qed
qed


lemma page_loop_frame:
  "qa < length (heap w) \<Longrightarrow>
   page_loop exc_init fuel srv self path qa retry lim limit cp count w = (out, w') \<Longrightarrow>
   \<exists>hp evs. w' = w\<lparr>heap := heap w @ hp, trace := trace w @ evs\<rparr> \<and>
     (\<forall>r \<in> set (requests evs).
        \<exists>i. params r = AList.update CURRENT_PAGE_KEY (JNum i) (heap w ! qa))"
proof (induction fuel arbitrary: cp count w)
  case 0
  then have "w' = w\<lparr>heap := heap w @ [], trace := trace w @ []\<rparr>"
    by (simp add: page_loop.simps)
  moreover have "\<forall>r \<in> set (requests []).
      \<exists>i. params r = AList.update CURRENT_PAGE_KEY (JNum i) (heap w ! qa)"
    by simp
  ultimately show ?case by blast
next
  case (Suc fuel)
  let ?pq = "AList.update CURRENT_PAGE_KEY (JNum cp) (heap w ! qa)"
  from page_loop_iteration [OF Suc.prems] obtain evs ys c' where
    r: "\<forall>r \<in> set (requests evs). params r = ?pq"
    and alt: "w' = w\<lparr>heap := heap w @ [?pq], trace := trace w @ evs @ map Yield ys\<rparr> \<or>
      page_loop exc_init fuel srv self path qa retry lim limit (cp + 1) c'
        (w\<lparr>heap := heap w @ [?pq], trace := trace w @ evs @ map Yield ys\<rparr>) = (out, w')"
    by blast
  let ?w4 = "w\<lparr>heap := heap w @ [?pq], trace := trace w @ evs @ map Yield ys\<rparr>"
  have r1: "\<forall>r \<in> set (requests (evs @ map Yield ys)).
      \<exists>i. params r = AList.update CURRENT_PAGE_KEY (JNum i) (heap w ! qa)"
    using r by (auto simp: requests_append)
  from alt show ?case
  proof
    assume "w' = ?w4"
    with r1 show ?thesis by blast
  next
    assume rec: "page_loop exc_init fuel srv self path qa retry lim limit (cp + 1) c' ?w4 = (out, w')"
    have qa4: "qa < length (heap ?w4)" using Suc.prems(1) by simp
    have h4: "heap ?w4 ! qa = heap w ! qa" using Suc.prems(1) by (simp add: nth_append)
    from Suc.IH [OF qa4 rec] obtain hp evs' where
      w': "w' = ?w4\<lparr>heap := heap ?w4 @ hp, trace := trace ?w4 @ evs'\<rparr>"
      and r2: "\<forall>r \<in> set (requests evs').
        \<exists>i. params r = AList.update CURRENT_PAGE_KEY (JNum i) (heap w ! qa)"
      unfolding h4 by blast
    have "w' = w\<lparr>heap := heap w @ (?pq # hp), trace := trace w @ ((evs @ map Yield ys) @ evs')\<rparr>"
      by (simp add: w')
    moreover have "\<forall>r \<in> set (requests ((evs @ map Yield ys) @ evs')).
        \<exists>i. params r = AList.update CURRENT_PAGE_KEY (JNum i) (heap w ! qa)"
      using r1 r2 by (auto simp: requests_append)
    ultimately show ?thesis by blast
  qed
qed

lemma get_paginated_frame:
  assumes ref: "valid_ref w query"
    and run: "get_paginated exc_init fuel srv self path query limit retry w = (out, w')"
  shows "\<exists>hp evs. w' = w\<lparr>heap := heap w @ hp, trace := trace w @ evs\<rparr> \<and>
     (\<forall>r \<in> set (requests evs).
        \<exists>i. params r = page_params (query_of w query) (effective_page_size self limit) i)"
proof (cases "limit = 0")
  case True
  with run have "w' = w\<lparr>heap := heap w @ [], trace := trace w @ []\<rparr>"
    by (simp add: get_paginated_def)
  moreover have "\<forall>r \<in> set (requests []).
      \<exists>i. params r = page_params (query_of w query) (effective_page_size self limit) i"
    by simp
  ultimately show ?thesis by blast
next
  case False
  let ?q1 = "AList.update PAGE_SIZE_KEY (JNum (effective_page_size self limit)) (query_of w query)"
  let ?w2 = "w\<lparr>heap := heap w @ [?q1]\<rparr>"
  let ?qa = "length (heap w)"
  have start: "get_paginated exc_init fuel srv self path query limit retry w =
      page_loop exc_init fuel srv self path ?qa retry (0 < limit) limit 1 0 ?w2"
    using False ref
    by (cases query)
      (simp_all add: get_paginated_def dict_new_def dict_copy_def dict_set_def Let_def
        query_of_def valid_ref_def)
  have a1: "?qa < length (heap ?w2)" by simp
  have a3: "heap ?w2 ! ?qa = ?q1" by simp
  from page_loop_frame [OF a1 run [unfolded start]] obtain hp evs where
    w': "w' = ?w2\<lparr>heap := heap ?w2 @ hp, trace := trace ?w2 @ evs\<rparr>"
    and r: "\<forall>r \<in> set (requests evs).
        \<exists>i. params r = AList.update CURRENT_PAGE_KEY (JNum i) ?q1"
    unfolding a3 by blast
  have "w' = w\<lparr>heap := heap w @ (?q1 # hp), trace := trace w @ evs\<rparr>" by (simp add: w')
  moreover have "\<forall>r \<in> set (requests evs).
      \<exists>i. params r = page_params (query_of w query) (effective_page_size self limit) i"
    using r by (simp add: page_params_def)
  ultimately show ?thesis by blast
qed

text \<open>
  Claim C4. Whatever the servers, the limits and the fuel are, a paginated fetch leaves every
  dict object that existed before the call as it was, the caller's query among them: the
  heap only grows, by the copies the fetch makes. Two fetches run one after the other on
  the same query object both leave it unchanged, and the query parameters of every request
  of either fetch are the caller's original query with that fetch's own page size and a page
  number: no key set by one fetch reaches the other.
\<close>

theorem get_paginated_query_untouched:
  assumes "a < length (heap w)"
    and "get_paginated exc_init fuel1 srv1 self1 path1 (Some a) limit1 retry1 w = (out1, w1)"
    and "get_paginated exc_init fuel2 srv2 self2 path2 (Some a) limit2 retry2 w1 = (out2, w2)"
  shows "heap w1 ! a = heap w ! a \<and> heap w2 ! a = heap w ! a \<and>
     take (length (heap w)) (heap w1) = heap w \<and>
     take (length (heap w1)) (heap w2) = heap w1 \<and>
     (\<forall>r \<in> set (requests (new_events w w1)).
        \<exists>i. params r = page_params (heap w ! a) (effective_page_size self1 limit1) i) \<and>
     (\<forall>r \<in> set (requests (new_events w1 w2)).
        \<exists>i. params r = page_params (heap w ! a) (effective_page_size self2 limit2) i)"
proof -
  have v: "valid_ref w (Some a)" using assms(1) by (simp add: valid_ref_def)
  from get_paginated_frame [OF v assms(2)] obtain hp evs where
    w1: "w1 = w\<lparr>heap := heap w @ hp, trace := trace w @ evs\<rparr>"
    and r1: "\<forall>r \<in> set (requests evs).
        \<exists>i. params r = page_params (heap w ! a) (effective_page_size self1 limit1) i"
    unfolding query_of_def by auto
  have a1: "a < length (heap w1)" using assms(1) by (simp add: w1)
  have h1: "heap w1 ! a = heap w ! a" using assms(1) by (simp add: w1 nth_append)
  have v1: "valid_ref w1 (Some a)" using a1 by (simp add: valid_ref_def)
  from get_paginated_frame [OF v1 assms(3), unfolded query_of_def option.case h1]
  obtain hp' evs' where
    w2: "w2 = w1\<lparr>heap := heap w1 @ hp', trace := trace w1 @ evs'\<rparr>"
    and r2: "\<forall>r \<in> set (requests evs').
        \<exists>i. params r = page_params (heap w ! a) (effective_page_size self2 limit2) i"
    by blast
  have h2: "heap w2 ! a = heap w ! a" using a1 h1 by (simp add: w2 nth_append)
  have t1: "take (length (heap w)) (heap w1) = heap w" by (simp add: w1)
  have t2: "take (length (heap w1)) (heap w2) = heap w1" by (simp add: w2)
  have e1: "new_events w w1 = evs" by (simp add: w1)
  have e2: "new_events w1 w2 = evs'" by (simp add: w2)
  from h1 h2 t1 t2 r1 r2 show ?thesis unfolding e1 e2 by (intro conjI)
qed

text \<open>Two fetches on the same query object, with limits 1 and 3.\<close>

theorem get_paginated_query_untouched_witness:
  "heap (snd (get_paginated init_succeeds 3 (paging_server [JStr ''item1'', JStr ''item2'', JStr ''item3''] 3)
       \<lparr>base_url = ''https://shop.test'', user_agent = ''ua'', read_only = False, PAGE_SIZE = 2,
        scope = ''all'', logger = False, authorization = ''Bearer secret''\<rparr>
       ''/V1/products/'' (Some 0) 1 0
       \<lparr>heap = [[(''searchCriteria[sortOrders][0][field]'', JStr ''sku'')]], trace = []\<rparr>)) ! 0 =
     [(''searchCriteria[sortOrders][0][field]'', JStr ''sku'')] \<and>
   heap (snd (get_paginated init_succeeds 3 (paging_server [JStr ''item1'', JStr ''item2'', JStr ''item3''] 3)
       \<lparr>base_url = ''https://shop.test'', user_agent = ''ua'', read_only = False, PAGE_SIZE = 2,
        scope = ''all'', logger = False, authorization = ''Bearer secret''\<rparr>
       ''/V1/products/'' (Some 0) 3 0
       (snd (get_paginated init_succeeds 3 (paging_server [JStr ''item1'', JStr ''item2'', JStr ''item3''] 3)
         \<lparr>base_url = ''https://shop.test'', user_agent = ''ua'', read_only = False, PAGE_SIZE = 2,
          scope = ''all'', logger = False, authorization = ''Bearer secret''\<rparr>
         ''/V1/products/'' (Some 0) 1 0
         \<lparr>heap = [[(''searchCriteria[sortOrders][0][field]'', JStr ''sku'')]],
          trace = []\<rparr>)))) ! 0 =
     [(''searchCriteria[sortOrders][0][field]'', JStr ''sku'')]"
proof -
  let ?srv = "paging_server [JStr ''item1'', JStr ''item2'', JStr ''item3''] 3"
  let ?self = "\<lparr>base_url = ''https://shop.test'', user_agent = ''ua'', read_only = False,
      PAGE_SIZE = 2, scope = ''all'', logger = False, authorization = ''Bearer secret''\<rparr>"
  let ?w = "\<lparr>heap = [[(''searchCriteria[sortOrders][0][field]'', JStr ''sku'')]], trace = []\<rparr>"
  let ?G1 = "get_paginated init_succeeds 3 ?srv ?self ''/V1/products/'' (Some 0) 1 0 ?w"
  let ?G2 = "get_paginated init_succeeds 3 ?srv ?self ''/V1/products/'' (Some 0) 3 0 (snd ?G1)"
  have p: "0 < length (heap ?w)" by simp
  have g1: "?G1 = (fst ?G1, snd ?G1)" and g2: "?G2 = (fst ?G2, snd ?G2)" by simp_all
  from get_paginated_query_untouched [OF p g1 g2]
  have "heap (snd ?G1) ! 0 = heap ?w ! 0" and "heap (snd ?G2) ! 0 = heap ?w ! 0"
    by blast+
  then show ?thesis by simp
qed

end
